theory Spec2Isabelle
  imports Main
begin

section \<open>The document model (pkg/elasticsearch/models.go)\<close>

text \<open>
  A \<open>time.Time\<close> is kept as its instant, in nanoseconds since the Unix epoch. A Go
  slice of strings is \<open>None\<close> when nil and \<open>Some xs\<close> otherwise, so that an empty but
  present list differs from an absent one. Go strings are byte sequences.
\<close>

type_synonym Time = int

record CodeDocument =
  Repo :: string
  FilePath :: string
  FunctionName :: string
  Code :: string
  HasNamedReturns :: bool
  HasErrorHandling :: bool
  Package :: string
  Imports :: "string list option"
  LintCompliant :: bool
  IndexedAt :: Time

definition zeroTime :: Time where
  "zeroTime = - 62135596800000000000"

definition zeroCodeDocument :: CodeDocument where
  "zeroCodeDocument =
     \<lparr>Repo = [], FilePath = [], FunctionName = [], Code = [],
      HasNamedReturns = False, HasErrorHandling = False, Package = [],
      Imports = None, LintCompliant = False, IndexedAt = zeroTime\<rparr>"

section \<open>JSON documents (encoding/json on CodeDocument)\<close>

datatype json =
    JNull
  | JBool bool
  | JNum int
  | JStr string
  | JArr "json list"
  | JObj "(string \<times> json) list"

text \<open>
  \<open>runeLen s\<close> is the width of the UTF-8 encoding that starts \<open>s\<close>, and 0 when the first
  byte starts no valid encoding (\<open>utf8.DecodeRuneInString\<close> then answers RuneError with
  width 1).
\<close>

definition byte :: "char \<Rightarrow> nat" where
  "byte c = of_char c"

definition isCont :: "char \<Rightarrow> bool" where
  "isCont c = (128 \<le> byte c \<and> byte c \<le> 191)"

fun runeLen :: "string \<Rightarrow> nat" where
  "runeLen [] = 0"
| "runeLen (b0 # rest) =
     (if byte b0 < 128 then 1
      else if 194 \<le> byte b0 \<and> byte b0 \<le> 223 then
        (case rest of b1 # _ \<Rightarrow> if isCont b1 then 2 else 0 | _ \<Rightarrow> 0)
      else if 224 \<le> byte b0 \<and> byte b0 \<le> 239 then
        (case rest of
           b1 # b2 # _ \<Rightarrow>
             if (if byte b0 = 224 then 160 \<le> byte b1 \<and> byte b1 \<le> 191
                 else if byte b0 = 237 then 128 \<le> byte b1 \<and> byte b1 \<le> 159
                 else isCont b1) \<and> isCont b2
             then 3 else 0
         | _ \<Rightarrow> 0)
      else if 240 \<le> byte b0 \<and> byte b0 \<le> 244 then
        (case rest of
           b1 # b2 # b3 # _ \<Rightarrow>
             if (if byte b0 = 240 then 144 \<le> byte b1 \<and> byte b1 \<le> 191
                 else if byte b0 = 244 then 128 \<le> byte b1 \<and> byte b1 \<le> 143
                 else isCont b1) \<and> isCont b2 \<and> isCont b3
             then 4 else 0
         | _ \<Rightarrow> 0)
      else 0)"

text \<open>\<open>utf8.ValidString\<close>.\<close>

function ValidString :: "string \<Rightarrow> bool" where
  "ValidString s =
     (if s = [] then True
      else if runeLen s = 0 then False
      else ValidString (drop (runeLen s) s))"
  by pat_completeness auto
termination
  by (relation "measure length") auto

text \<open>
  The string encoder of \<open>json.Marshal\<close>: a string is coerced to valid UTF-8, each
  invalid byte becoming the replacement rune U+FFFD (bytes EF BF BD). The escapes the
  encoder writes for quotes, control characters and HTML decode to the same bytes and
  are not modelled.
\<close>

definition replacementRune :: string where
  "replacementRune = [char_of (239::nat), char_of (191::nat), char_of (189::nat)]"

function toValidUTF8 :: "string \<Rightarrow> string" where
  "toValidUTF8 s =
     (if s = [] then []
      else if runeLen s = 0 then replacementRune @ toValidUTF8 (tl s)
      else take (runeLen s) s @ toValidUTF8 (drop (runeLen s) s))"
  by pat_completeness auto
termination
  by (relation "measure length") auto

declare ValidString.simps [simp del]
declare toValidUTF8.simps [simp del]

definition marshalString :: "string \<Rightarrow> json" where
  "marshalString s = JStr (toValidUTF8 s)"

definition marshalStrings :: "string list option \<Rightarrow> json" where
  "marshalStrings xs = (case xs of None \<Rightarrow> JNull | Some l \<Rightarrow> JArr (map marshalString l))"

section \<open>HTTP, observable events and the platform\<close>

datatype payload =
    NoBody
  | Text string
  | Doc json

subsection \<open>Errors\<close>

text \<open>
  Go error values, one constructor per way the program builds or receives one.
  \<open>External\<close> stands for an error made outside the program (operating system, network
  transport, Go parser, git process), named by its message.
\<close>

datatype error =
    SkipDir
  | ErrGitConfigRequired
  | Canceled
  | DeadlineExceeded
  | External string
  | Wrap string error
  | RetriesExhausted nat nat
  | UnexpectedStatus nat
  | StatusError string string payload
  | CommandFailed string error string

text \<open>
  A call either returns or panics; a panic unwinds through every caller, so each
  function that calls one that can panic passes the panic on.
\<close>

datatype 'a outcome = Returns 'a | Panics string

record Request =
  Method :: string
  URL :: string
  ReqBody :: payload
  ContentType :: "string option"
  BasicAuth :: "(string \<times> string) option"

record Response =
  StatusCode :: nat
  Status :: string
  Body :: payload

text \<open>
  Directory trees as \<open>filepath.Walk\<close> finds them: an entry is a file (anything that is
  not a directory), a directory with its entries in the lexical order in which Walk
  reads them, a directory whose listing fails, or an entry whose \<open>lstat\<close> fails. The
  last two carry the message of the operating system's error.
\<close>

datatype fsnode =
    File string
  | Dir string "fsnode list"
  | DirErr string string
  | LstatErr string string

record DirEntry =
  entryIsDir :: bool
  entryName :: string

datatype statResult = StatOk | StatNotExist | StatError error

record Field =
  Names :: "string list"

record FieldList =
  List :: "Field list"

record FuncType =
  Results :: "FieldList option"

text \<open>
  A function declaration of the syntax tree, with the byte offsets that the file set
  gives for its \<open>Pos()\<close> and \<open>End()\<close>.
\<close>

record FuncDecl =
  Name :: string
  Type :: FuncType
  PosOffset :: nat
  EndOffset :: nat

text \<open>
  A parsed file: the package name, the import paths as written (quoted literals) and
  the function declarations in the order \<open>ast.Inspect\<close> meets them.
\<close>

record AstFile =
  PkgName :: string
  ImportPaths :: "string list"
  FuncDecls :: "FuncDecl list"

datatype logval = S string | E error | N nat | I int

text \<open>
  Everything the program does to the outside is an event of the trace, with the answer
  it got. The world is the trace so far.
\<close>

datatype event =
    Http Request "error + Response"
  | Select int "error option"
  | Log string string "(string \<times> logval) list"
  | Metric string "string list" logval
  | Parse string "error + AstFile"
  | ReadFile string "error + string"
  | ReadDir string "error + DirEntry list"
  | Stat string statResult
  | MkdirAll string "error option"
  | Exec "string list" "string list" int "string \<times> error option \<times> bool"
  | Lock
  | Unlock

type_synonym world = "event list"

text \<open>
  The platform answers every interaction, as a function of the trace so far: the HTTP
  transport, the select between the context and the backoff timer (\<open>Some e\<close> when the
  context is done first), the clock, the JSON codec of \<open>time.Time\<close>, the Go parser, the
  file system and the git process (combined output, error, and whether the deadline
  of the command's context has passed). \<open>newRequestErr\<close> is the error, if any, with
  which \<open>http.NewRequestWithContext\<close> refuses a method and URL.
\<close>

record platform =
  httpDo :: "world \<Rightarrow> Request \<Rightarrow> error + Response"
  ctxDone :: "world \<Rightarrow> int \<Rightarrow> error option"
  timeNow :: "world \<Rightarrow> Time"
  timeMarshalJSON :: "Time \<Rightarrow> error + string"
  timeUnmarshalJSON :: "string \<Rightarrow> error + Time"
  parseFile :: "world \<Rightarrow> string \<Rightarrow> error + AstFile"
  readFile :: "world \<Rightarrow> string \<Rightarrow> error + string"
  readDir :: "world \<Rightarrow> string \<Rightarrow> error + DirEntry list"
  lstatTree :: "world \<Rightarrow> string \<Rightarrow> fsnode"
  osStat :: "world \<Rightarrow> string \<Rightarrow> statResult"
  osMkdirAll :: "world \<Rightarrow> string \<Rightarrow> error option"
  newRequestErr :: "string \<Rightarrow> string \<Rightarrow> error option"
  getenv :: "world \<Rightarrow> string \<Rightarrow> string"
  environ :: "world \<Rightarrow> string list"
  runCommand :: "world \<Rightarrow> string list \<Rightarrow> string list \<Rightarrow> int \<Rightarrow> string \<times> error option \<times> bool"

definition emit :: "event \<Rightarrow> world \<Rightarrow> world" where
  "emit e w = w @ [e]"

section \<open>Encoding and decoding a CodeDocument\<close>

text \<open>
  \<open>json.Marshal\<close> on a CodeDocument: one member per field, under the name of its
  \<open>json\<close> tag, in the order of the struct. A nil slice is written as \<open>null\<close>; the
  time is written by its own \<open>MarshalJSON\<close>, which can fail.
\<close>

definition MarshalCodeDocument :: "platform \<Rightarrow> CodeDocument \<Rightarrow> error + json" where
  "MarshalCodeDocument p doc =
     (case timeMarshalJSON p (IndexedAt doc) of
        Inl e \<Rightarrow> Inl e
      | Inr ts \<Rightarrow>
          Inr (JObj
            [(''repo'', marshalString (Repo doc)),
             (''file_path'', marshalString (FilePath doc)),
             (''function_name'', marshalString (FunctionName doc)),
             (''code'', marshalString (Code doc)),
             (''has_namedreturns'', JBool (HasNamedReturns doc)),
             (''has_error_handling'', JBool (HasErrorHandling doc)),
             (''package'', marshalString (Package doc)),
             (''imports'', marshalStrings (Imports doc)),
             (''lint_compliant'', JBool (LintCompliant doc)),
             (''indexed_at'', JStr ts)]))"

text \<open>
  \<open>json.Unmarshal\<close> into a CodeDocument. A \<open>null\<close> leaves the field as it is, except
  for a slice, which it sets to nil; a value of the wrong kind is an error; a member
  that names no field is skipped. Members are matched on the exact tag name (Go also
  accepts another letter case).
\<close>

definition typeError :: "string \<Rightarrow> error" where
  "typeError ty = External (''json: cannot unmarshal value into Go value of type '' @ ty)"

fun unmarshalString :: "json \<Rightarrow> string \<Rightarrow> error + string" where
  "unmarshalString (JStr s) cur = Inr s"
| "unmarshalString JNull cur = Inr cur"
| "unmarshalString _ cur = Inl (typeError ''string'')"

fun unmarshalBool :: "json \<Rightarrow> bool \<Rightarrow> error + bool" where
  "unmarshalBool (JBool b) cur = Inr b"
| "unmarshalBool JNull cur = Inr cur"
| "unmarshalBool _ cur = Inl (typeError ''bool'')"

fun unmarshalElems :: "json list \<Rightarrow> error + string list" where
  "unmarshalElems [] = Inr []"
| "unmarshalElems (j # js) =
     (case unmarshalString j [] of
        Inl e \<Rightarrow> Inl e
      | Inr s \<Rightarrow> (case unmarshalElems js of Inl e \<Rightarrow> Inl e | Inr ss \<Rightarrow> Inr (s # ss)))"

fun unmarshalStrings :: "json \<Rightarrow> error + string list option" where
  "unmarshalStrings (JArr js) =
     (case unmarshalElems js of Inl e \<Rightarrow> Inl e | Inr ss \<Rightarrow> Inr (Some ss))"
| "unmarshalStrings JNull = Inr None"
| "unmarshalStrings _ = Inl (typeError ''[]string'')"

fun unmarshalTime :: "platform \<Rightarrow> json \<Rightarrow> Time \<Rightarrow> error + Time" where
  "unmarshalTime p (JStr s) cur = timeUnmarshalJSON p s"
| "unmarshalTime p JNull cur = Inr cur"
| "unmarshalTime p _ cur = Inl (typeError ''time.Time'')"

definition setField :: "platform \<Rightarrow> CodeDocument \<Rightarrow> string \<times> json \<Rightarrow> error + CodeDocument" where
  "setField p d kv =
     (let k = fst kv; v = snd kv in
      if k = ''repo'' then
        (case unmarshalString v (Repo d) of Inl e \<Rightarrow> Inl e | Inr x \<Rightarrow> Inr (d\<lparr>Repo := x\<rparr>))
      else if k = ''file_path'' then
        (case unmarshalString v (FilePath d) of Inl e \<Rightarrow> Inl e | Inr x \<Rightarrow> Inr (d\<lparr>FilePath := x\<rparr>))
      else if k = ''function_name'' then
        (case unmarshalString v (FunctionName d) of
           Inl e \<Rightarrow> Inl e | Inr x \<Rightarrow> Inr (d\<lparr>FunctionName := x\<rparr>))
      else if k = ''code'' then
        (case unmarshalString v (Code d) of Inl e \<Rightarrow> Inl e | Inr x \<Rightarrow> Inr (d\<lparr>Code := x\<rparr>))
      else if k = ''has_namedreturns'' then
        (case unmarshalBool v (HasNamedReturns d) of
           Inl e \<Rightarrow> Inl e | Inr x \<Rightarrow> Inr (d\<lparr>HasNamedReturns := x\<rparr>))
      else if k = ''has_error_handling'' then
        (case unmarshalBool v (HasErrorHandling d) of
           Inl e \<Rightarrow> Inl e | Inr x \<Rightarrow> Inr (d\<lparr>HasErrorHandling := x\<rparr>))
      else if k = ''package'' then
        (case unmarshalString v (Package d) of Inl e \<Rightarrow> Inl e | Inr x \<Rightarrow> Inr (d\<lparr>Package := x\<rparr>))
      else if k = ''imports'' then
        (case unmarshalStrings v of Inl e \<Rightarrow> Inl e | Inr x \<Rightarrow> Inr (d\<lparr>Imports := x\<rparr>))
      else if k = ''lint_compliant'' then
        (case unmarshalBool v (LintCompliant d) of
           Inl e \<Rightarrow> Inl e | Inr x \<Rightarrow> Inr (d\<lparr>LintCompliant := x\<rparr>))
      else if k = ''indexed_at'' then
        (case unmarshalTime p v (IndexedAt d) of
           Inl e \<Rightarrow> Inl e | Inr x \<Rightarrow> Inr (d\<lparr>IndexedAt := x\<rparr>))
      else Inr d)"

fun decodeFields :: "platform \<Rightarrow> (string \<times> json) list \<Rightarrow> CodeDocument \<Rightarrow> error + CodeDocument" where
  "decodeFields p [] d = Inr d"
| "decodeFields p (kv # kvs) d =
     (case setField p d kv of Inl e \<Rightarrow> Inl e | Inr d' \<Rightarrow> decodeFields p kvs d')"

definition UnmarshalCodeDocument :: "platform \<Rightarrow> json \<Rightarrow> error + CodeDocument" where
  "UnmarshalCodeDocument p j =
     (case j of
        JObj kvs \<Rightarrow> decodeFields p kvs zeroCodeDocument
      | JNull \<Rightarrow> Inr zeroCodeDocument
      | _ \<Rightarrow> Inl (typeError ''elasticsearch.CodeDocument''))"

section \<open>The document-store client (pkg/elasticsearch/client.go)\<close>

definition maxRetries :: nat where
  "maxRetries = 3"

text \<open>A \<open>time.Duration\<close> counts nanoseconds.\<close>

definition millisecond :: int where
  "millisecond = 1000000"

definition retryBackoff :: int where
  "retryBackoff = 500 * millisecond"

definition retryMultiplier :: int where
  "retryMultiplier = 2"

record Client =
  host :: string
  index :: string
  username :: string
  password :: string

definition clientDo :: "platform \<Rightarrow> Request \<Rightarrow> world \<Rightarrow> (error + Response) \<times> world" where
  "clientDo p req w = (let r = httpDo p w req in (r, emit (Http req r) w))"

text \<open>
  The select of the retry loop: it waits for the backoff unless the request's context
  is done first.
\<close>

definition selectBackoff :: "platform \<Rightarrow> int \<Rightarrow> world \<Rightarrow> error option \<times> world" where
  "selectBackoff p backoff w = (let r = ctxDone p w backoff in (r, emit (Select backoff r) w))"

text \<open>
  The loop of \<open>doRequestWithRetry\<close>, entered at \<open>attempt\<close> with the current backoff
  and the \<open>resp\<close> and \<open>err\<close> of the attempt before. A transport error leaves \<open>resp\<close>
  nil.
\<close>

function retryLoop ::
  "platform \<Rightarrow> Request \<Rightarrow> nat \<Rightarrow> int \<Rightarrow> Response option \<Rightarrow> error option \<Rightarrow> world
     \<Rightarrow> (Response option \<times> error option) \<times> world" where
  "retryLoop p req attempt backoff resp err w =
     (if attempt \<le> maxRetries then
        (case (if attempt > 0 then selectBackoff p backoff w else (None, w)) of
           (Some ctxErr, w1) \<Rightarrow> ((resp, Some ctxErr), w1)
         | (None, w1) \<Rightarrow>
             (let backoff' = (if attempt > 0 then backoff * retryMultiplier else backoff) in
              case clientDo p req w1 of
                (Inl e, w2) \<Rightarrow> retryLoop p req (attempt + 1) backoff' None (Some e) w2
              | (Inr r, w2) \<Rightarrow>
                  if StatusCode r < 500 then ((Some r, None), w2)
                  else retryLoop p req (attempt + 1) backoff' (Some r) None w2))
      else
        (case (resp, err) of
           (Some r, None) \<Rightarrow> ((resp, Some (RetriesExhausted maxRetries (StatusCode r))), w)
         | _ \<Rightarrow> ((resp, err), w)))"
  by pat_completeness auto
termination
  by (relation "measure (\<lambda>(p, req, attempt, backoff, resp, err, w). maxRetries + 1 - attempt)") auto

declare retryLoop.simps [simp del]

definition doRequestWithRetry ::
  "platform \<Rightarrow> Request \<Rightarrow> world \<Rightarrow> (Response option \<times> error option) \<times> world" where
  "doRequestWithRetry p req w = retryLoop p req 0 retryBackoff None None w"

definition basicAuth :: "Client \<Rightarrow> (string \<times> string) option" where
  "basicAuth es = (if username es \<noteq> [] then Some (username es, password es) else None)"

definition countESRequest :: "string \<Rightarrow> string \<Rightarrow> world \<Rightarrow> world" where
  "countESRequest operation status w = emit (Metric ''ESRequests'' [operation, status] (N 1)) w"

definition IndexDocument ::
  "platform \<Rightarrow> Client \<Rightarrow> CodeDocument \<Rightarrow> world \<Rightarrow> error option outcome \<times> world" where
  "IndexDocument p es doc w =
     (case MarshalCodeDocument p doc of
        Inl e \<Rightarrow> (Returns (Some (Wrap ''failed to marshal document'' e)), w)
      | Inr data \<Rightarrow>
          (let url = host es @ ''/'' @ index es @ ''/_doc'' in
           case newRequestErr p ''POST'' url of
             Some e \<Rightarrow> (Returns (Some (Wrap ''failed to create request'' e)), w)
           | None \<Rightarrow>
               (let req = \<lparr>Method = ''POST'', URL = url, ReqBody = Doc data,
                           ContentType = Some ''application/json'', BasicAuth = basicAuth es\<rparr> in
                case doRequestWithRetry p req w of
                  ((_, Some e), w1) \<Rightarrow>
                    (Returns (Some (Wrap ''failed to send request'' e)),
                     countESRequest ''index'' ''error'' w1)
                | ((None, None), w1) \<Rightarrow> (Panics ''nil pointer dereference'', w1)
                | ((Some r, None), w1) \<Rightarrow>
                    if StatusCode r \<ge> 300 then
                      (Returns (Some (StatusError ''elasticsearch error'' (Status r) (Body r))),
                       countESRequest ''index'' ''error'' w1)
                    else (Returns None, countESRequest ''index'' ''success'' w1))))"

section \<open>Index provisioning (pkg/elasticsearch/models.go)\<close>

definition newline :: string where
  "newline = [char_of (10::nat)]"

fun joinLines :: "string list \<Rightarrow> string" where
  "joinLines [] = []"
| "joinLines [l] = l"
| "joinLines (l # ls) = l @ newline @ joinLines ls"

definition indexMapping :: string where
  \<open>indexMapping = joinLines
     [''{'',
      ''  "settings": {'',
      ''    "number_of_shards": 1,'',
      ''    "number_of_replicas": 0,'',
      ''    "refresh_interval": "30s"'',
      ''  },'',
      ''  "mappings": {'',
      ''    "properties": {'',
      ''      "repo": {"type": "keyword"},'',
      ''      "file_path": {"type": "keyword"},'',
      ''      "function_name": {"type": "keyword"},'',
      ''      "code": {"type": "text", "analyzer": "standard"},'',
      ''      "has_namedreturns": {"type": "boolean"},'',
      ''      "has_error_handling": {"type": "boolean"},'',
      ''      "package": {"type": "keyword"},'',
      ''      "imports": {"type": "keyword"},'',
      ''      "lint_compliant": {"type": "boolean"},'',
      ''      "indexed_at": {"type": "date"}'',
      ''    }'',
      ''  }'',
      ''}'']\<close>

definition indexURL :: "Client \<Rightarrow> string" where
  "indexURL es = host es @ ''/'' @ index es"

definition headRequest :: "Client \<Rightarrow> Request" where
  "headRequest es =
     \<lparr>Method = ''HEAD'', URL = indexURL es, ReqBody = NoBody, ContentType = None,
      BasicAuth = basicAuth es\<rparr>"

definition createRequest :: "Client \<Rightarrow> Request" where
  "createRequest es =
     \<lparr>Method = ''PUT'', URL = indexURL es, ReqBody = Text indexMapping,
      ContentType = Some ''application/json'', BasicAuth = basicAuth es\<rparr>"

definition indexExists :: "platform \<Rightarrow> Client \<Rightarrow> world \<Rightarrow> (bool \<times> error option) \<times> world" where
  "indexExists p es w =
     (case newRequestErr p ''HEAD'' (indexURL es) of
        Some e \<Rightarrow> ((False, Some e), w)
      | None \<Rightarrow>
          (case clientDo p (headRequest es) w of
             (Inl e, w1) \<Rightarrow> ((False, Some e), w1)
           | (Inr r, w1) \<Rightarrow>
               if StatusCode r = 200 then ((True, None), w1)
               else if StatusCode r = 404 then ((False, None), w1)
               else ((False, Some (UnexpectedStatus (StatusCode r))), w1)))"

definition EnsureIndex :: "platform \<Rightarrow> Client \<Rightarrow> world \<Rightarrow> error option outcome \<times> world" where
  "EnsureIndex p es w =
     (case indexExists p es w of
        ((_, Some checkErr), w1) \<Rightarrow>
          (Returns (Some (Wrap ''failed to check if index exists'' checkErr)), w1)
      | ((True, None), w1) \<Rightarrow> (Returns None, w1)
      | ((False, None), w1) \<Rightarrow>
          (case newRequestErr p ''PUT'' (indexURL es) of
             Some e \<Rightarrow> (Returns (Some (Wrap ''failed to create request'' e)), w1)
           | None \<Rightarrow>
               (case doRequestWithRetry p (createRequest es) w1 of
                  ((_, Some e), w2) \<Rightarrow> (Returns (Some (Wrap ''failed to create index'' e)), w2)
                | ((None, None), w2) \<Rightarrow> (Panics ''nil pointer dereference'', w2)
                | ((Some r, None), w2) \<Rightarrow>
                    if StatusCode r \<ge> 300 then
                      (Returns (Some (StatusError ''elasticsearch error creating index''
                                        (Status r) (Body r))), w2)
                    else (Returns None, w2))))"

section \<open>Extracting function records (pkg/indexer/parser.go)\<close>

text \<open>\<open>strings.HasPrefix\<close>, \<open>strings.Contains\<close> and \<open>strings.Trim\<close> on bytes.\<close>

fun HasPrefix :: "string \<Rightarrow> string \<Rightarrow> bool" where
  "HasPrefix s [] = True"
| "HasPrefix [] (c # prefix) = False"
| "HasPrefix (b # s) (c # prefix) = (b = c \<and> HasPrefix s prefix)"

fun Contains :: "string \<Rightarrow> string \<Rightarrow> bool" where
  "Contains [] substr = HasPrefix [] substr"
| "Contains (b # s) substr = (HasPrefix (b # s) substr \<or> Contains s substr)"

definition Trim :: "string \<Rightarrow> string \<Rightarrow> string" where
  "Trim s cutset =
     rev (dropWhile (\<lambda>c. c \<in> set cutset) (rev (dropWhile (\<lambda>c. c \<in> set cutset) s)))"

text \<open>The loop of \<open>hasNamedReturns\<close> over the result fields, leaving at the first named one.\<close>

fun anyNamed :: "Field list \<Rightarrow> bool" where
  "anyNamed [] = False"
| "anyNamed (field # rest) = (if length (Names field) > 0 then True else anyNamed rest)"

definition hasNamedReturns :: "FuncDecl \<Rightarrow> bool" where
  "hasNamedReturns funcDecl =
     (case Results (Type funcDecl) of
        None \<Rightarrow> False
      | Some results \<Rightarrow> anyNamed (List results))"

text \<open>
  \<open>extractFunctionDoc\<close>, given the value \<open>now\<close> of \<open>time.Now()\<close>. The slice expression
  \<open>content[start:end]\<close> panics out of range (the slice is taken to be as long as its
  capacity).
\<close>

definition extractFunctionDoc ::
  "FuncDecl \<Rightarrow> string \<Rightarrow> string \<Rightarrow> string \<Rightarrow> string \<Rightarrow> string list option \<Rightarrow> Time
     \<Rightarrow> CodeDocument outcome" where
  "extractFunctionDoc funcDecl content repo filePath pkgName imports now =
     (let start = PosOffset funcDecl; stop = EndOffset funcDecl in
      if start \<le> stop \<and> stop \<le> length content then
        (let code = take (stop - start) (drop start content) in
         Returns
           \<lparr>Repo = repo, FilePath = filePath, FunctionName = Name funcDecl, Code = code,
            HasNamedReturns = hasNamedReturns funcDecl,
            HasErrorHandling = Contains code ''if err != nil'',
            Package = pkgName, Imports = imports, LintCompliant = False, IndexedAt = now\<rparr>)
      else Panics ''slice bounds out of range'')"

record astVisitor =
  visitorES :: Client
  visitorContent :: string
  visitorRepo :: string
  visitorFilePath :: string
  visitorPkgName :: string
  visitorImports :: "string list option"
  funcCount :: nat

text \<open>\<open>Visit\<close> on a function declaration; on any other node it only continues.\<close>

definition Visit ::
  "platform \<Rightarrow> astVisitor \<Rightarrow> FuncDecl \<Rightarrow> world \<Rightarrow> astVisitor outcome \<times> world" where
  "Visit p v funcDecl w =
     (case extractFunctionDoc funcDecl (visitorContent v) (visitorRepo v) (visitorFilePath v)
             (visitorPkgName v) (visitorImports v) (timeNow p w) of
        Panics m \<Rightarrow> (Panics m, w)
      | Returns doc \<Rightarrow>
          (case IndexDocument p (visitorES v) doc w of
             (Panics m, w1) \<Rightarrow> (Panics m, w1)
           | (Returns (Some indexErr), w1) \<Rightarrow>
               (Returns v,
                emit (Log ''warn'' ''Failed to index function''
                        [(''function'', S (FunctionName doc)), (''error'', E indexErr)]) w1)
           | (Returns None, w1) \<Rightarrow> (Returns (v\<lparr>funcCount := funcCount v + 1\<rparr>), w1)))"

fun inspect ::
  "platform \<Rightarrow> astVisitor \<Rightarrow> FuncDecl list \<Rightarrow> world \<Rightarrow> astVisitor outcome \<times> world" where
  "inspect p v [] w = (Returns v, w)"
| "inspect p v (funcDecl # rest) w =
     (case Visit p v funcDecl w of
        (Panics m, w1) \<Rightarrow> (Panics m, w1)
      | (Returns v1, w1) \<Rightarrow> inspect p v1 rest w1)"

text \<open>
  The import loop of \<open>indexFile\<close>: \<open>append\<close> starts from a nil slice, so a file without
  imports keeps it nil.
\<close>

definition quoteCutset :: string where
  "quoteCutset = [char_of (34::nat)]"

fun appendImports :: "string list option \<Rightarrow> string list \<Rightarrow> string list option" where
  "appendImports acc [] = acc"
| "appendImports acc (path # rest) =
     appendImports (Some ((case acc of None \<Rightarrow> [] | Some xs \<Rightarrow> xs) @ [Trim path quoteCutset])) rest"

definition indexFile ::
  "platform \<Rightarrow> Client \<Rightarrow> string \<Rightarrow> string \<Rightarrow> world \<Rightarrow> (nat \<times> error option) outcome \<times> world" where
  "indexFile p es repoArg path w =
     (let parsed = parseFile p w path; w1 = emit (Parse path parsed) w in
      case parsed of
        Inl parseErr \<Rightarrow> (Returns (0, Some (Wrap ''failed to parse file'' parseErr)), w1)
      | Inr node \<Rightarrow>
          (let importList = appendImports None (ImportPaths node);
               readResult = readFile p w1 path;
               w2 = emit (ReadFile path readResult) w1 in
           case readResult of
             Inl readErr \<Rightarrow> (Returns (0, Some (Wrap ''failed to read file'' readErr)), w2)
           | Inr bytes \<Rightarrow>
               (case inspect p
                       \<lparr>visitorES = es, visitorContent = bytes, visitorRepo = repoArg,
                        visitorFilePath = path, visitorPkgName = PkgName node,
                        visitorImports = importList, funcCount = 0\<rparr>
                       (FuncDecls node) w2 of
                  (Panics m, w3) \<Rightarrow> (Panics m, w3)
                | (Returns v, w3) \<Rightarrow> (Returns (funcCount v, None), w3))))"

section \<open>Walking a repository tree (pkg/indexer/walker.go)\<close>

text \<open>
  \<open>filepath.Ext\<close> scans the path from its end up to the last separator and answers the
  suffix that starts at the first dot it meets.
\<close>

fun extScan :: "string \<Rightarrow> string \<Rightarrow> string" where
  "extScan [] suffix = []"
| "extScan (c # before) suffix =
     (if c = CHR ''/'' then []
      else if c = CHR ''.'' then c # suffix
      else extScan before (c # suffix))"

definition Ext :: "string \<Rightarrow> string" where
  "Ext path = extScan (rev path) []"

text \<open>\<open>filepath.Join\<close> of a clean path and one name.\<close>

definition Join :: "string \<Rightarrow> string \<Rightarrow> string" where
  "Join path name = path @ ''/'' @ name"

record FileInfo =
  IsDir :: bool
  FileName :: string

record fileWalker =
  walkerES :: Client
  repoName :: string
  totalCount :: nat

text \<open>
  The callback \<open>walk\<close>. With \<open>pathErr\<close> nil Walk always passes a file info; calling a
  method on a nil one would panic.
\<close>

definition walk ::
  "platform \<Rightarrow> string \<Rightarrow> FileInfo option \<Rightarrow> error option \<Rightarrow> fileWalker \<times> world
     \<Rightarrow> error option outcome \<times> fileWalker \<times> world" where
  "walk p path info pathErr st =
     (let fw = fst st; w = snd st in
      case pathErr of
        Some e \<Rightarrow> (Returns (Some e), fw, w)
      | None \<Rightarrow>
          (case info of
             None \<Rightarrow> (Panics ''nil pointer dereference'', fw, w)
           | Some fi \<Rightarrow>
               if IsDir fi \<and> (FileName fi = ''vendor'' \<or> FileName fi = ''.git'') then
                 (Returns (Some SkipDir), fw, w)
               else if Ext path \<noteq> ''.go'' then (Returns None, fw, w)
               else
                 (case indexFile p (walkerES fw) (repoName fw) path w of
                    (Panics m, w1) \<Rightarrow> (Panics m, fw, w1)
                  | (Returns (fileCount, Some indexErr), w1) \<Rightarrow>
                      (Returns None, fw,
                       emit (Metric ''ParseErrors'' [repoName fw, path] (N 1))
                         (emit (Log ''warn'' ''Failed to index file''
                                  [(''file'', S path), (''error'', E indexErr)]) w1))
                  | (Returns (fileCount, None), w1) \<Rightarrow>
                      (Returns None, fw\<lparr>totalCount := totalCount fw + fileCount\<rparr>, w1))))"

subsection \<open>\<open>filepath.Walk\<close>\<close>

fun nodeName :: "fsnode \<Rightarrow> string" where
  "nodeName (File n) = n"
| "nodeName (Dir n entries) = n"
| "nodeName (DirErr n e) = n"
| "nodeName (LstatErr n e) = n"

fun nodeIsDir :: "fsnode \<Rightarrow> bool" where
  "nodeIsDir (File n) = False"
| "nodeIsDir (Dir n entries) = True"
| "nodeIsDir (DirErr n e) = True"
| "nodeIsDir (LstatErr n e) = False"

fun lstatFailed :: "fsnode \<Rightarrow> bool" where
  "lstatFailed (LstatErr n e) = True"
| "lstatFailed _ = False"

definition nodeInfo :: "fsnode \<Rightarrow> FileInfo" where
  "nodeInfo node = \<lparr>IsDir = nodeIsDir node, FileName = nodeName node\<rparr>"

text \<open>
  The recursion of the library: the callback is called on a file; on a directory it is
  called with the error of reading the directory, and the entries are walked only if
  there was none and the callback answered nil. In the loop over the entries an entry
  whose \<open>lstat\<close> fails is reported to the callback, and any error but SkipDir on a
  directory ends the walk. \<open>Walk\<close> itself turns a final SkipDir into nil.
\<close>

fun walkNode ::
  "(string \<Rightarrow> FileInfo option \<Rightarrow> error option \<Rightarrow> 's \<Rightarrow> error option outcome \<times> 's)
     \<Rightarrow> string \<Rightarrow> fsnode \<Rightarrow> 's \<Rightarrow> error option outcome \<times> 's"
and walkNames ::
  "(string \<Rightarrow> FileInfo option \<Rightarrow> error option \<Rightarrow> 's \<Rightarrow> error option outcome \<times> 's)
     \<Rightarrow> string \<Rightarrow> fsnode list \<Rightarrow> 's \<Rightarrow> error option outcome \<times> 's" where
  "walkNode walkFn path (File n) st = walkFn path (Some (nodeInfo (File n))) None st"
| "walkNode walkFn path (DirErr n e) st =
     walkFn path (Some (nodeInfo (DirErr n e))) (Some (External e)) st"
| "walkNode walkFn path (LstatErr n e) st = walkFn path None (Some (External e)) st"
| "walkNode walkFn path (Dir n entries) st =
     (case walkFn path (Some (nodeInfo (Dir n entries))) None st of
        (Panics m, st1) \<Rightarrow> (Panics m, st1)
      | (Returns (Some err1), st1) \<Rightarrow> (Returns (Some err1), st1)
      | (Returns None, st1) \<Rightarrow> walkNames walkFn path entries st1)"
| "walkNames walkFn path [] st = (Returns None, st)"
| "walkNames walkFn path (entry # rest) st =
     (case walkNode walkFn (Join path (nodeName entry)) entry st of
        (Panics m, st1) \<Rightarrow> (Panics m, st1)
      | (Returns None, st1) \<Rightarrow> walkNames walkFn path rest st1
      | (Returns (Some err), st1) \<Rightarrow>
          if (if lstatFailed entry then err \<noteq> SkipDir
              else \<not> nodeIsDir entry \<or> err \<noteq> SkipDir)
          then (Returns (Some err), st1)
          else walkNames walkFn path rest st1)"

definition Walk ::
  "(string \<Rightarrow> FileInfo option \<Rightarrow> error option \<Rightarrow> 's \<Rightarrow> error option outcome \<times> 's)
     \<Rightarrow> string \<Rightarrow> fsnode \<Rightarrow> 's \<Rightarrow> error option outcome \<times> 's" where
  "Walk walkFn root tree st =
     (case walkNode walkFn root tree st of
        (Returns (Some err), st1) \<Rightarrow> (if err = SkipDir then (Returns None, st1) else (Returns (Some err), st1))
      | r \<Rightarrow> r)"

section \<open>Running git (pkg/indexer/git.go)\<close>

definition minute :: int where
  "minute = 60 * 1000 * millisecond"

definition cloneTimeout :: int where
  "cloneTimeout = 5 * minute"

definition fetchTimeout :: int where
  "fetchTimeout = 2 * minute"

definition buildGitEnv :: "platform \<Rightarrow> world \<Rightarrow> string \<Rightarrow> string \<Rightarrow> string list" where
  "buildGitEnv p w sshKeyPath sshCommand =
     (if sshCommand \<noteq> [] then environ p w @ [''GIT_SSH_COMMAND='' @ sshCommand]
      else if sshKeyPath \<noteq> [] then
        environ p w @
          [''GIT_SSH_COMMAND='' @ (''ssh -i '' @ sshKeyPath @ '' -o StrictHostKeyChecking=yes'')]
      else environ p w)"

text \<open>One \<open>exec.CommandContext(...).CombinedOutput()\<close>, with the events it leaves.\<close>

definition combinedOutput ::
  "platform \<Rightarrow> string list \<Rightarrow> string list \<Rightarrow> int \<Rightarrow> world
     \<Rightarrow> (string \<times> error option \<times> bool) \<times> world" where
  "combinedOutput p args envv timeout w =
     (let r = runCommand p w args envv timeout in (r, emit (Exec args envv timeout r) w))"

definition gitClone ::
  "platform \<Rightarrow> string \<Rightarrow> string \<Rightarrow> string \<Rightarrow> string \<Rightarrow> world \<Rightarrow> error option \<times> world" where
  "gitClone p url target sshKeyPath sshCommand w =
     (case combinedOutput p [''git'', ''clone'', url, target]
             (buildGitEnv p w sshKeyPath sshCommand) cloneTimeout w of
        ((output, None, deadline), w1) \<Rightarrow> (None, w1)
      | ((output, Some e, deadline), w1) \<Rightarrow>
          if deadline then (Some (Wrap ''git clone timed out after 5m0s'' e), w1)
          else (Some (CommandFailed ''git clone failed'' e output), w1))"

definition gitFetch ::
  "platform \<Rightarrow> string \<Rightarrow> string \<Rightarrow> string \<Rightarrow> world \<Rightarrow> error option \<times> world" where
  "gitFetch p repoPath sshKeyPath sshCommand w =
     (case combinedOutput p [''git'', ''-C'', repoPath, ''fetch'', ''--all'']
             (buildGitEnv p w sshKeyPath sshCommand) fetchTimeout w of
        ((output, Some e, deadline), w1) \<Rightarrow>
          if deadline then (Some (Wrap ''git fetch timed out after 2m0s'' e), w1)
          else (Some (CommandFailed ''git fetch failed'' e output), w1)
      | ((output, None, deadline), w1) \<Rightarrow>
          (case combinedOutput p [''git'', ''-C'', repoPath, ''reset'', ''--hard'', ''origin/HEAD'']
                  (buildGitEnv p w1 sshKeyPath sshCommand) fetchTimeout w1 of
             ((output2, Some e, deadline2), w2) \<Rightarrow>
               if deadline2 then (Some (Wrap ''git reset timed out after 2m0s'' e), w2)
               else (Some (CommandFailed ''git reset failed'' e output2), w2)
           | ((output2, None, deadline2), w2) \<Rightarrow> (None, w2)))"

text \<open>
  \<open>strings.Replace\<close> of the first \<open>n\<close> occurrences of a non-empty \<open>old\<close> (all of
  them when \<open>n\<close> is \<open>None\<close>), as \<open>buildRepoURL\<close> uses it.
\<close>

function Replace :: "string \<Rightarrow> string \<Rightarrow> string \<Rightarrow> nat option \<Rightarrow> string" where
  "Replace s old new n =
     (if s = [] \<or> old = [] \<or> n = Some 0 then s
      else if HasPrefix s old then
        new @ Replace (drop (length old) s) old new (map_option (\<lambda>k. k - 1) n)
      else hd s # Replace (tl s) old new n)"
  by pat_completeness auto
termination
  by (relation "measure (\<lambda>(s, old, new, n). length s)") auto

declare Replace.simps [simp del]

definition ReplaceAll :: "string \<Rightarrow> string \<Rightarrow> string \<Rightarrow> string" where
  "ReplaceAll s old new = Replace s old new None"

definition buildRepoURL :: "string \<Rightarrow> string \<Rightarrow> string \<Rightarrow> string \<Rightarrow> string" where
  "buildRepoURL urlFormat org repoArg token =
     (let url = ReplaceAll (ReplaceAll urlFormat ''{org}'' org) ''{repo}'' repoArg in
      if token \<noteq> [] then Replace url ''https://'' (''https://'' @ token @ ''@'') (Some 1)
      else url)"

section \<open>The indexer (pkg/indexer/visitor.go)\<close>

record Config =
  GitOrg :: string
  GitRepos :: "string list"
  ReposPath :: string
  GitURLFormat :: string
  GitToken :: string
  GitSSHKeyPath :: string

record Indexer =
  config :: Config
  indexerES :: Client

definition cloneOrUpdateRepo :: "platform \<Rightarrow> Indexer \<Rightarrow> string \<Rightarrow> world \<Rightarrow> error option \<times> world" where
  "cloneOrUpdateRepo p idx repoArg w =
     (let repoURL = buildRepoURL (GitURLFormat (config idx)) (GitOrg (config idx)) repoArg
                      (GitToken (config idx));
          targetDir = Join (ReposPath (config idx)) repoArg;
          st = osStat p w (Join targetDir ''.git'');
          w1 = emit (Stat (Join targetDir ''.git'') st) w in
      if st = StatOk then
        (let w2 = emit (Log ''info'' ''Repository already exists, fetching updates''
                          [(''repo'', S repoArg)]) w1 in
         case gitFetch p targetDir (GitSSHKeyPath (config idx)) (getenv p w2 ''GIT_SSH_COMMAND'') w2 of
           (Some e, w3) \<Rightarrow> (Some (Wrap ''failed to fetch'' e), w3)
         | (None, w3) \<Rightarrow> (None, w3))
      else
        (let w2 = emit (Log ''info'' ''Cloning repository'' [(''repo'', S repoArg)]) w1 in
         case gitClone p repoURL targetDir (GitSSHKeyPath (config idx))
                (getenv p w2 ''GIT_SSH_COMMAND'') w2 of
           (Some e, w3) \<Rightarrow> (Some (Wrap ''failed to clone'' e), w3)
         | (None, w3) \<Rightarrow> (None, w3)))"

text \<open>The loop of \<open>CloneRepos\<close> over the configured repositories.\<close>

fun cloneEach :: "platform \<Rightarrow> Indexer \<Rightarrow> string list \<Rightarrow> world \<Rightarrow> world" where
  "cloneEach p idx [] w = w"
| "cloneEach p idx (repoArg # rest) w =
     (case cloneOrUpdateRepo p idx repoArg w of
        (Some cloneErr, w1) \<Rightarrow>
          cloneEach p idx rest
            (emit (Log ''warn'' ''Failed to process repository''
                     [(''repo'', S repoArg), (''error'', E cloneErr)]) w1)
      | (None, w1) \<Rightarrow> cloneEach p idx rest w1)"

definition CloneRepos :: "platform \<Rightarrow> Indexer \<Rightarrow> world \<Rightarrow> error option \<times> world" where
  "CloneRepos p idx w =
     (if GitOrg (config idx) = [] \<or> length (GitRepos (config idx)) = 0 then
        (Some ErrGitConfigRequired, w)
      else
        (let r = osMkdirAll p w (ReposPath (config idx));
             w1 = emit (MkdirAll (ReposPath (config idx)) r) w in
         case r of
           Some e \<Rightarrow> (Some (Wrap ''failed to create repos directory'' e), w1)
         | None \<Rightarrow> (None, cloneEach p idx (GitRepos (config idx)) w1)))"

text \<open>\<open>filepath.Base\<close>.\<close>

definition Base :: "string \<Rightarrow> string" where
  "Base path =
     (if path = [] then ''.''
      else
        (let stripped = rev (dropWhile (\<lambda>c. c = CHR ''/'') (rev path));
             element = rev (takeWhile (\<lambda>c. c \<noteq> CHR ''/'') (rev stripped)) in
         if element = [] then ''/'' else element))"

text \<open>
  \<open>walkAndIndexRepo\<close> walks the tree that the file system shows under the repository
  path when the walk starts.
\<close>

definition walkAndIndexRepo ::
  "platform \<Rightarrow> Indexer \<Rightarrow> string \<Rightarrow> string \<Rightarrow> world \<Rightarrow> (nat \<times> error option) outcome \<times> world" where
  "walkAndIndexRepo p idx name repoPath w =
     (let walker = \<lparr>walkerES = indexerES idx, repoName = name, totalCount = 0\<rparr> in
      case Walk (walk p) repoPath (lstatTree p w repoPath) (walker, w) of
        (Panics m, fw, w1) \<Rightarrow> (Panics m, w1)
      | (Returns walkErr, fw, w1) \<Rightarrow> (Returns (totalCount fw, walkErr), w1))"

definition IndexRepository ::
  "platform \<Rightarrow> Indexer \<Rightarrow> string \<Rightarrow> world \<Rightarrow> (nat \<times> error option) outcome \<times> world" where
  "IndexRepository p idx repoPath w =
     (let name = Base repoPath;
          w1 = emit (Log ''info'' ''Indexing repository'' [(''repo'', S name)]) w;
          start = timeNow p w1 in
      case walkAndIndexRepo p idx name repoPath w1 of
        (Panics m, w2) \<Rightarrow> (Panics m, w2)
      | (Returns (count, err), w2) \<Rightarrow>
          (let w3 = emit (Metric ''IndexingDuration'' [name] (I (timeNow p w2 - start))) w2 in
           if err = None then
             (Returns (count, err),
              emit (Metric ''FunctionsIndexed'' [name] (N count))
                (emit (Metric ''LastSuccessfulIndex'' [name] (I (timeNow p w3))) w3))
           else (Returns (count, err), w3)))"

definition indexRepoIfValid ::
  "platform \<Rightarrow> Indexer \<Rightarrow> string \<Rightarrow> world \<Rightarrow> (nat \<times> error option) outcome \<times> world" where
  "indexRepoIfValid p idx name w =
     (let repoPath = Join (ReposPath (config idx)) name;
          gitPath = Join repoPath ''.git'';
          st = osStat p w gitPath;
          w1 = emit (Stat gitPath st) w in
      if st = StatNotExist then (Returns (0, None), w1)
      else IndexRepository p idx repoPath w1)"

text \<open>One turn of the loop of \<open>IndexAllRepos\<close>, from the running total to the next.\<close>

definition indexEntry ::
  "platform \<Rightarrow> Indexer \<Rightarrow> DirEntry \<Rightarrow> nat \<Rightarrow> world \<Rightarrow> nat outcome \<times> world" where
  "indexEntry p idx entry sofar w =
     (if \<not> entryIsDir entry then (Returns sofar, w)
      else
        (case indexRepoIfValid p idx (entryName entry) w of
           (Panics m, w1) \<Rightarrow> (Panics m, w1)
         | (Returns (count, Some indexErr), w1) \<Rightarrow>
             (Returns sofar,
              emit (Log ''error'' ''Failed to index repository''
                      [(''repo'', S (entryName entry)), (''error'', E indexErr)]) w1)
         | (Returns (count, None), w1) \<Rightarrow>
             (Returns (sofar + count), emit (Metric ''ReposIndexed'' [] (N 1)) w1)))"

fun indexEntries ::
  "platform \<Rightarrow> Indexer \<Rightarrow> DirEntry list \<Rightarrow> nat \<Rightarrow> world \<Rightarrow> nat outcome \<times> world" where
  "indexEntries p idx [] sofar w = (Returns sofar, w)"
| "indexEntries p idx (entry # rest) sofar w =
     (case indexEntry p idx entry sofar w of
        (Panics m, w1) \<Rightarrow> (Panics m, w1)
      | (Returns total1, w1) \<Rightarrow> indexEntries p idx rest total1 w1)"

text \<open>
  \<open>IndexAllRepos\<close> run alone, the mutex being free: it takes the lock, and the deferred
  unlock runs on every way out, a panic included.
\<close>

definition IndexAllRepos ::
  "platform \<Rightarrow> Indexer \<Rightarrow> world \<Rightarrow> (nat \<times> error option) outcome \<times> world" where
  "IndexAllRepos p idx w =
     (let w1 = emit Lock w;
          listing = readDir p w1 (ReposPath (config idx));
          w2 = emit (ReadDir (ReposPath (config idx)) listing) w1 in
      case listing of
        Inl e \<Rightarrow> (Returns (0, Some (Wrap ''failed to read repos directory'' e)), emit Unlock w2)
      | Inr entries \<Rightarrow>
          (case indexEntries p idx entries 0 w2 of
             (Panics m, w3) \<Rightarrow> (Panics m, emit Unlock w3)
           | (Returns sofar, w3) \<Rightarrow> (Returns (sofar, None), emit Unlock w3)))"

section \<open>Reading the trace\<close>

text \<open>
  Every \<open>cloneOrUpdateRepo\<close> begins by looking for the repository's \<open>.git\<close> directory,
  and nothing else in the synchronisation calls \<open>os.Stat\<close>: the paths of the \<open>Stat\<close>
  events are the synchronisations attempted, in order.
\<close>

fun statPaths :: "world \<Rightarrow> string list" where
  "statPaths [] = []"
| "statPaths (Stat path st # w) = path # statPaths w"
| "statPaths (ev # w) = statPaths w"

definition gitDir :: "Indexer \<Rightarrow> string \<Rightarrow> string" where
  "gitDir idx repoArg = Join (Join (ReposPath (config idx)) repoArg) ''.git''"

text \<open>
  The commands run in a trace, each with its time limit, and the three commands of a
  synchronisation: the clone of the repository's URL into its directory, and the fetch
  and the hard reset in a directory that is already a working copy.
\<close>

fun execCalls :: "world \<Rightarrow> (string list \<times> int) list" where
  "execCalls [] = []"
| "execCalls (Exec args envv timeout r # w) = (args, timeout) # execCalls w"
| "execCalls (ev # w) = execCalls w"

definition cloneCommand :: "Indexer \<Rightarrow> string \<Rightarrow> string list \<times> int" where
  "cloneCommand idx repoArg =
     ([''git'', ''clone'',
       buildRepoURL (GitURLFormat (config idx)) (GitOrg (config idx)) repoArg (GitToken (config idx)),
       Join (ReposPath (config idx)) repoArg],
      cloneTimeout)"

definition fetchCommand :: "Indexer \<Rightarrow> string \<Rightarrow> string list \<times> int" where
  "fetchCommand idx repoArg =
     ([''git'', ''-C'', Join (ReposPath (config idx)) repoArg, ''fetch'', ''--all''], fetchTimeout)"

definition resetCommand :: "Indexer \<Rightarrow> string \<Rightarrow> string list \<times> int" where
  "resetCommand idx repoArg =
     ([''git'', ''-C'', Join (ReposPath (config idx)) repoArg, ''reset'', ''--hard'', ''origin/HEAD''],
      fetchTimeout)"

definition failureWarning :: "string \<Rightarrow> error \<Rightarrow> event" where
  "failureWarning repoArg cloneErr =
     Log ''warn'' ''Failed to process repository'' [(''repo'', S repoArg), (''error'', E cloneErr)]"

text \<open>
  The world in which the repository at position \<open>k\<close> of the configured list is
  synchronised: the directory has been made and the repositories before it have been
  processed.
\<close>

definition worldAt :: "platform \<Rightarrow> Indexer \<Rightarrow> world \<Rightarrow> nat \<Rightarrow> world" where
  "worldAt p idx w k =
     cloneEach p idx (take k (GitRepos (config idx)))
       (emit (MkdirAll (ReposPath (config idx)) (osMkdirAll p w (ReposPath (config idx)))) w)"

section \<open>A platform for examples\<close>

text \<open>
  On the idle platform nothing exists and nothing fails: requests are answered with
  200, the context is never done, directories are empty, commands succeed. The time
  codec knows the one instant 0.
\<close>

definition idlePlatform :: platform where
  "idlePlatform =
     \<lparr>httpDo = (\<lambda>w req. Inr \<lparr>StatusCode = 200, Status = ''200 OK'', Body = NoBody\<rparr>),
      ctxDone = (\<lambda>w d. None),
      timeNow = (\<lambda>w. 0),
      timeMarshalJSON =
        (\<lambda>t. if t = 0 then Inr ''1970-01-01T00:00:00Z''
              else Inl (External ''Time.MarshalJSON: year outside of range [0,9999]'')),
      timeUnmarshalJSON =
        (\<lambda>s. if s = ''1970-01-01T00:00:00Z'' then Inr 0
              else Inl (External ''parsing time: cannot parse'')),
      parseFile = (\<lambda>w path. Inl (External ''no such file or directory'')),
      readFile = (\<lambda>w path. Inl (External ''no such file or directory'')),
      readDir = (\<lambda>w path. Inr []),
      lstatTree = (\<lambda>w path. LstatErr (Base path) ''no such file or directory''),
      osStat = (\<lambda>w path. StatNotExist),
      osMkdirAll = (\<lambda>w path. None),
      newRequestErr = (\<lambda>method url. None),
      getenv = (\<lambda>w name. []),
      environ = (\<lambda>w. []),
      runCommand = (\<lambda>w args envv timeout. ([], None, False))\<rparr>"

text \<open>A platform on which every git command fails, and a configured indexer.\<close>

definition failingGit :: platform where
  "failingGit = idlePlatform\<lparr>runCommand :=
      (\<lambda>w args envv timeout.
         (''fatal: repository not found'', Some (External ''exit status 128''), False))\<rparr>"

definition sampleIndexer :: Indexer where
  "sampleIndexer =
     \<lparr>config = \<lparr>GitOrg = ''org'', GitRepos = [''a'', ''b''], ReposPath = ''/repos'',
                GitURLFormat = ''git@github.com:{org}/{repo}.git'', GitToken = [],
                GitSSHKeyPath = []\<rparr>,
      indexerES = \<lparr>host = ''http://es:9200'', index = ''code'', username = [], password = []\<rparr>\<rparr>"

section \<open>Scripted document stores\<close>

text \<open>
  The number of requests in a trace, and the trace that \<open>doRequestWithRetry\<close> is
  expected to leave when the answer to attempt \<open>i\<close> is \<open>answers i\<close> and the last
  attempt made is attempt \<open>k\<close>: the requests, with a wait of the base backoff doubled
  \<open>i\<close> times between attempt \<open>i\<close> and the next.
\<close>

fun httpCount :: "world \<Rightarrow> nat" where
  "httpCount [] = 0"
| "httpCount (Http req r # w) = Suc (httpCount w)"
| "httpCount (ev # w) = httpCount w"

definition retryable :: "error + Response \<Rightarrow> bool" where
  "retryable r = (case r of Inl e \<Rightarrow> True | Inr resp \<Rightarrow> StatusCode resp \<ge> 500)"

fun selectDelays :: "world \<Rightarrow> int list" where
  "selectDelays [] = []"
| "selectDelays (Select d r # w) = d # selectDelays w"
| "selectDelays (ev # w) = selectDelays w"

fun retryTrace :: "Request \<Rightarrow> (nat \<Rightarrow> error + Response) \<Rightarrow> nat \<Rightarrow> world" where
  "retryTrace req answers 0 = [Http req (answers 0)]"
| "retryTrace req answers (Suc k) =
     retryTrace req answers k @ [Select (retryBackoff * 2 ^ k) None, Http req (answers (Suc k))]"

text \<open>A store that answers the attempts as scripted, on a context that is never done.\<close>

definition scripted :: "(nat \<Rightarrow> error + Response) \<Rightarrow> platform" where
  "scripted answers = idlePlatform\<lparr>httpDo := (\<lambda>w req. answers (httpCount w))\<rparr>"

definition status :: "nat \<Rightarrow> error + Response" where
  "status code = Inr \<lparr>StatusCode = code, Status = [], Body = NoBody\<rparr>"

text \<open>The trace already left when the retry loop is entered at attempt \<open>a\<close>.\<close>

definition traceBefore :: "Request \<Rightarrow> (nat \<Rightarrow> error + Response) \<Rightarrow> nat \<Rightarrow> world" where
  "traceBefore req answers a = (case a of 0 \<Rightarrow> [] | Suc j \<Rightarrow> retryTrace req answers j)"

section \<open>A document store that keeps its indices\<close>

text \<open>
  The part of the store's behaviour that provisioning relies on: the store holds
  indices by URL, each with the body it was created from. HEAD on a URL answers 200
  if the index is there and 404 if not; PUT creates the index and answers 200, or
  answers 400 and changes nothing if it is there already. Its state after a trace is
  the initial one with the PUT requests of the trace applied.
\<close>

definition applyRequest :: "(string \<rightharpoonup> payload) \<Rightarrow> Request \<Rightarrow> (string \<rightharpoonup> payload)" where
  "applyRequest indices req =
     (if Method req = ''PUT'' \<and> indices (URL req) = None then indices(URL req \<mapsto> ReqBody req)
      else indices)"

fun storeAfter :: "(string \<rightharpoonup> payload) \<Rightarrow> world \<Rightarrow> (string \<rightharpoonup> payload)" where
  "storeAfter indices [] = indices"
| "storeAfter indices (Http req r # w) = storeAfter (applyRequest indices req) w"
| "storeAfter indices (ev # w) = storeAfter indices w"

definition ok200 :: Response where
  "ok200 = \<lparr>StatusCode = 200, Status = ''200 OK'', Body = NoBody\<rparr>"

definition notFound404 :: Response where
  "notFound404 = \<lparr>StatusCode = 404, Status = ''404 Not Found'', Body = NoBody\<rparr>"

definition storeAnswer :: "(string \<rightharpoonup> payload) \<Rightarrow> Request \<Rightarrow> Response" where
  "storeAnswer indices req =
     (if Method req = ''HEAD'' then
        (if indices (URL req) = None then notFound404 else ok200)
      else if Method req = ''PUT'' \<and> indices (URL req) \<noteq> None
        then \<lparr>StatusCode = 400, Status = ''400 Bad Request'', Body = NoBody\<rparr>
      else ok200)"

definition elasticStore :: "(string \<rightharpoonup> payload) \<Rightarrow> platform" where
  "elasticStore indices =
     idlePlatform\<lparr>httpDo := (\<lambda>w req. Inr (storeAnswer (storeAfter indices w) req))\<rparr>"

section \<open>The walk as a list of visits\<close>

text \<open>
  What the callback does on a path that has no error and is not a pruned directory:
  the extension test and the indexing of the file. The file info plays no part in it.
\<close>

definition reach ::
  "platform \<Rightarrow> string \<Rightarrow> fileWalker \<times> world \<Rightarrow> error option outcome \<times> fileWalker \<times> world" where
  "reach p path st = walk p path (Some \<lparr>IsDir = False, FileName = []\<rparr>) None st"

text \<open>
  The order of the walk, written down without the callback: the paths of a tree in
  lexical pre-order, where a directory named \<open>vendor\<close> or \<open>.git\<close> contributes nothing,
  neither itself nor anything below it, and an unreadable directory or entry
  contributes its failure.
\<close>

datatype visit = Reach string | Fail string

definition prunedName :: "string \<Rightarrow> bool" where
  "prunedName n = (n = ''vendor'' \<or> n = ''.git'')"

fun visits :: "string \<Rightarrow> fsnode \<Rightarrow> visit list"
and visitsOf :: "string \<Rightarrow> fsnode list \<Rightarrow> visit list" where
  "visits path (File n) = [Reach path]"
| "visits path (Dir n entries) =
     (if prunedName n then [] else Reach path # visitsOf path entries)"
| "visits path (DirErr n e) = [Fail e]"
| "visits path (LstatErr n e) = [Fail e]"
| "visitsOf path [] = []"
| "visitsOf path (entry # rest) = visits (Join path (nodeName entry)) entry @ visitsOf path rest"

text \<open>Going through the visits in order, up to the first failure or panic.\<close>

fun run ::
  "platform \<Rightarrow> visit list \<Rightarrow> fileWalker \<times> world \<Rightarrow> error option outcome \<times> fileWalker \<times> world" where
  "run p [] st = (Returns None, st)"
| "run p (Fail e # rest) st = (Returns (Some (External e)), st)"
| "run p (Reach path # rest) st =
     (case reach p path st of
        (Panics m, st1) \<Rightarrow> (Panics m, st1)
      | (Returns r, st1) \<Rightarrow> run p rest st1)"


text \<open>
  A platform on which every file parses to one function declaration, and the walker
  with which a repository walk starts.
\<close>

definition sourcePlatform :: platform where
  "sourcePlatform = idlePlatform
     \<lparr>parseFile := (\<lambda>w path. Inr
        \<lparr>PkgName = ''main'', ImportPaths = [],
         FuncDecls = [\<lparr>Name = ''f'', Type = \<lparr>Results = None\<rparr>, PosOffset = 13, EndOffset = 25\<rparr>]\<rparr>),
      readFile := (\<lambda>w path. Inr ''package main func f() { }'')\<rparr>"

definition sampleWalker :: fileWalker where
  "sampleWalker = \<lparr>walkerES = indexerES sampleIndexer, repoName = ''repo'', totalCount = 0\<rparr>"

section \<open>Documents for examples\<close>

text \<open>
  A document is valid when every string in it is valid UTF-8. The sample document is
  the one of the repository's test of the JSON encoding, at the instant 0; the other
  one belongs to a file whose name starts with the byte FF, which no UTF-8 encoding
  contains.
\<close>

definition validDocument :: "CodeDocument \<Rightarrow> bool" where
  "validDocument d \<longleftrightarrow>
     ValidString (Repo d) \<and> ValidString (FilePath d) \<and> ValidString (FunctionName d)
     \<and> ValidString (Code d) \<and> ValidString (Package d)
     \<and> (case Imports d of None \<Rightarrow> True | Some l \<Rightarrow> list_all ValidString l)"

definition sampleDocument :: CodeDocument where
  "sampleDocument =
     \<lparr>Repo = ''test-repo'', FilePath = ''pkg/test/file.go'', FunctionName = ''TestFunction'',
      Code = ''func TestFunction() (result string, err error) { return result, err }'',
      HasNamedReturns = True, HasErrorHandling = True, Package = ''test'',
      Imports = Some [''context'', ''errors''], LintCompliant = False, IndexedAt = 0\<rparr>"

definition oddNameDocument :: CodeDocument where
  "oddNameDocument = sampleDocument\<lparr>FilePath := char_of (255::nat) # ''.go''\<rparr>"

section \<open>Overlapping calls of IndexAllRepos\<close>

text \<open>
  Any number of calls of \<open>IndexAllRepos\<close> on one indexer, interleaved. A call that has
  not arrived is \<open>Idle\<close>; it then stands at \<open>idx.mu.Lock()\<close>; once it holds the mutex it
  reads the repositories directory and goes through the entries one turn of the loop
  at a time; it ends with its result, the deferred \<open>Unlock\<close> done. Inside the lock a
  call remembers the world in which it took the mutex. The mutex is that of
  \<open>sync.Mutex\<close>: \<open>Lock\<close> goes through only when the mutex is free, and a call that
  finds it held waits where it is.
\<close>

datatype pc =
    Idle
  | AtLock
  | AtReadDir world
  | InLoop world "DirEntry list" nat
  | Finished world "(nat \<times> error option) outcome"

record conf =
  mu :: bool
  shared :: world
  pcs :: "nat \<Rightarrow> pc"

definition initial :: "world \<Rightarrow> conf" where
  "initial w = \<lparr>mu = False, shared = w, pcs = (\<lambda>i. Idle)\<rparr>"

fun inCS :: "pc \<Rightarrow> bool" where
  "inCS (AtReadDir w0) = True"
| "inCS (InLoop w0 entries sofar) = True"
| "inCS other = False"

inductive step :: "platform \<Rightarrow> Indexer \<Rightarrow> conf \<Rightarrow> conf \<Rightarrow> bool" for p idx where
  arrive:
    "pcs c i = Idle \<Longrightarrow> step p idx c (c\<lparr>pcs := (pcs c)(i := AtLock)\<rparr>)"
| lock:
    "pcs c i = AtLock \<Longrightarrow> \<not> mu c \<Longrightarrow>
     step p idx c
       (c\<lparr>mu := True, shared := emit Lock (shared c), pcs := (pcs c)(i := AtReadDir (shared c))\<rparr>)"
| readDirFails:
    "pcs c i = AtReadDir w0 \<Longrightarrow> readDir p (shared c) (ReposPath (config idx)) = Inl e \<Longrightarrow>
     step p idx c
       (c\<lparr>mu := False,
          shared := emit Unlock (emit (ReadDir (ReposPath (config idx)) (Inl e)) (shared c)),
          pcs := (pcs c)(i := Finished w0
                   (Returns (0, Some (Wrap ''failed to read repos directory'' e))))\<rparr>)"
| readDirReturns:
    "pcs c i = AtReadDir w0 \<Longrightarrow> readDir p (shared c) (ReposPath (config idx)) = Inr entries \<Longrightarrow>
     step p idx c
       (c\<lparr>shared := emit (ReadDir (ReposPath (config idx)) (Inr entries)) (shared c),
          pcs := (pcs c)(i := InLoop w0 entries 0)\<rparr>)"
| turn:
    "pcs c i = InLoop w0 (entry # rest) sofar \<Longrightarrow>
     indexEntry p idx entry sofar (shared c) = (Returns sofar1, w1) \<Longrightarrow>
     step p idx c (c\<lparr>shared := w1, pcs := (pcs c)(i := InLoop w0 rest sofar1)\<rparr>)"
| turnPanics:
    "pcs c i = InLoop w0 (entry # rest) sofar \<Longrightarrow>
     indexEntry p idx entry sofar (shared c) = (Panics m, w1) \<Longrightarrow>
     step p idx c
       (c\<lparr>mu := False, shared := emit Unlock w1, pcs := (pcs c)(i := Finished w0 (Panics m))\<rparr>)"
| returnTotal:
    "pcs c i = InLoop w0 [] sofar \<Longrightarrow>
     step p idx c
       (c\<lparr>mu := False, shared := emit Unlock (shared c),
          pcs := (pcs c)(i := Finished w0 (Returns (sofar, None)))\<rparr>)"

inductive reachable :: "platform \<Rightarrow> Indexer \<Rightarrow> world \<Rightarrow> conf \<Rightarrow> bool" for p idx w where
  atStart: "reachable p idx w (initial w)"
| afterStep: "reachable p idx w c \<Longrightarrow> step p idx c c' \<Longrightarrow> reachable p idx w c'"

text \<open>
  What a call inside the lock still has to do, done without interruption from the
  world \<open>w\<close>.
\<close>

definition unlockAfter :: "nat outcome \<times> world \<Rightarrow> (nat \<times> error option) outcome \<times> world" where
  "unlockAfter r =
     (case r of
        (Panics m, w3) \<Rightarrow> (Panics m, emit Unlock w3)
      | (Returns sofar, w3) \<Rightarrow> (Returns (sofar, None), emit Unlock w3))"

fun resume ::
  "platform \<Rightarrow> Indexer \<Rightarrow> pc \<Rightarrow> world \<Rightarrow> (nat \<times> error option) outcome \<times> world" where
  "resume p idx (AtReadDir w0) w =
     (case readDir p w (ReposPath (config idx)) of
        Inl e \<Rightarrow>
          (Returns (0, Some (Wrap ''failed to read repos directory'' e)),
           emit Unlock (emit (ReadDir (ReposPath (config idx)) (Inl e)) w))
      | Inr entries \<Rightarrow>
          unlockAfter (indexEntries p idx entries 0
            (emit (ReadDir (ReposPath (config idx)) (Inr entries)) w)))"
| "resume p idx (InLoop w0 entries sofar) w = unlockAfter (indexEntries p idx entries sofar w)"
| "resume p idx (Finished w0 r) w = (r, w)"
| "resume p idx other w = IndexAllRepos p idx w"

fun lockedIn :: "pc \<Rightarrow> world option" where
  "lockedIn (AtReadDir w0) = Some w0"
| "lockedIn (InLoop w0 entries sofar) = Some w0"
| "lockedIn (Finished w0 r) = Some w0"
| "lockedIn other = None"

section \<open>Properties of the extractor\<close>

lemma anyNamed_iff: "anyNamed fs \<longleftrightarrow> (\<exists>field \<in> set fs. Names field \<noteq> [])"
  by (induction fs) auto

lemma HasPrefix_iff: "HasPrefix s prefix \<longleftrightarrow> (\<exists>post. s = prefix @ post)"
  by (induction s prefix rule: HasPrefix.induct) auto

lemma Contains_iff: "Contains s substr \<longleftrightarrow> (\<exists>pre post. s = pre @ substr @ post)"
proof (induction s)
  case Nil
  then show ?case by (auto simp: HasPrefix_iff)
next
  case (Cons c s)
  show ?case
  proof
    assume "Contains (c # s) substr"
    then consider "HasPrefix (c # s) substr" | "Contains s substr" by auto
    then show "\<exists>pre post. c # s = pre @ substr @ post"
    proof cases
      case 1
      then obtain post where "c # s = substr @ post" by (auto simp: HasPrefix_iff)
      then have "c # s = [] @ substr @ post" by simp
      then show ?thesis by blast
    next
      case 2
      then obtain pre post where "s = pre @ substr @ post" using Cons.IH by blast
      then have "c # s = (c # pre) @ substr @ post" by simp
      then show ?thesis by blast
    qed
  next
    assume "\<exists>pre post. c # s = pre @ substr @ post"
    then obtain pre post where eq: "c # s = pre @ substr @ post" by blast
    show "Contains (c # s) substr"
    proof (cases pre)
      case Nil
      then have "HasPrefix (c # s) substr" using eq by (auto simp: HasPrefix_iff)
      then show ?thesis by simp
    next
      case (Cons a pre')
      then have "s = pre' @ substr @ post" using eq by simp
      then have "Contains s substr" using Cons.IH by blast
      then show ?thesis by simp
    qed
  qed
qed

text \<open>
  C6. Whenever the declaration's offsets lie within the file, so that the extraction
  returns, the record's \<open>HasNamedReturns\<close> flag is true exactly when the declaration
  has a result list and some field of it binds at least one identifier. A declaration
  without a result list, and one whose result fields all have no names, give false.
\<close>

theorem named_returns_flag:
  assumes "PosOffset funcDecl \<le> EndOffset funcDecl" and "EndOffset funcDecl \<le> length content"
  shows "\<exists>doc. extractFunctionDoc funcDecl content repo filePath pkgName imps now = Returns doc
           \<and> HasNamedReturns doc =
               (\<exists>results. Results (Type funcDecl) = Some results
                  \<and> (\<exists>field \<in> set (List results). Names field \<noteq> []))
           \<and> (Results (Type funcDecl) = None \<longrightarrow> \<not> HasNamedReturns doc)
           \<and> ((\<forall>results field. Results (Type funcDecl) = Some results \<and> field \<in> set (List results)
                  \<longrightarrow> Names field = []) \<longrightarrow> \<not> HasNamedReturns doc)"
  using assms
  by (auto simp: extractFunctionDoc_def Let_def hasNamedReturns_def anyNamed_iff
      split: option.splits)

theorem named_returns_flag_witness:
  "(\<exists>doc. extractFunctionDoc
      \<lparr>Name = ''Foo'', Type = \<lparr>Results = Some \<lparr>List = [\<lparr>Names = [''result'']\<rparr>, \<lparr>Names = [''err'']\<rparr>]\<rparr>\<rparr>,
       PosOffset = 13, EndOffset = 54\<rparr>
      ''package test func Foo() (result string, err error) { }'' ''r'' ''f.go'' ''test'' None 0
        = Returns doc
      \<and> HasNamedReturns doc)
   \<and> (\<exists>doc. extractFunctionDoc
      \<lparr>Name = ''Foo'', Type = \<lparr>Results = Some \<lparr>List = [\<lparr>Names = []\<rparr>, \<lparr>Names = []\<rparr>]\<rparr>\<rparr>,
       PosOffset = 13, EndOffset = 43\<rparr>
      ''package test func Foo() (string, error) { }'' ''r'' ''f.go'' ''test'' None 0 = Returns doc
      \<and> \<not> HasNamedReturns doc)
   \<and> (\<exists>doc. extractFunctionDoc
      \<lparr>Name = ''Foo'', Type = \<lparr>Results = None\<rparr>, PosOffset = 13, EndOffset = 27\<rparr>
      ''package test func Foo() { }'' ''r'' ''f.go'' ''test'' None 0 = Returns doc
      \<and> \<not> HasNamedReturns doc)"
  using
    named_returns_flag [of
      "\<lparr>Name = ''Foo'', Type = \<lparr>Results = Some \<lparr>List = [\<lparr>Names = [''result'']\<rparr>, \<lparr>Names = [''err'']\<rparr>]\<rparr>\<rparr>,
        PosOffset = 13, EndOffset = 54\<rparr>"
      "''package test func Foo() (result string, err error) { }''" "''r''" "''f.go''" "''test''" None 0]
    named_returns_flag [of
      "\<lparr>Name = ''Foo'', Type = \<lparr>Results = Some \<lparr>List = [\<lparr>Names = []\<rparr>, \<lparr>Names = []\<rparr>]\<rparr>\<rparr>,
        PosOffset = 13, EndOffset = 43\<rparr>"
      "''package test func Foo() (string, error) { }''" "''r''" "''f.go''" "''test''" None 0]
    named_returns_flag [of
      "\<lparr>Name = ''Foo'', Type = \<lparr>Results = None\<rparr>, PosOffset = 13, EndOffset = 27\<rparr>"
      "''package test func Foo() { }''" "''r''" "''f.go''" "''test''" None 0]
  by auto

text \<open>
  C7. Whenever the declaration's offsets lie within the file, the extraction returns a
  record whose code is the bytes between the two offsets and whose \<open>HasErrorHandling\<close>
  flag is true exactly when that code has the literal \<open>if err != nil\<close> somewhere in
  it. Nothing but this byte sequence counts: another spelling of the same test gives
  false.
\<close>

theorem error_handling_flag:
  assumes "PosOffset funcDecl \<le> EndOffset funcDecl" and "EndOffset funcDecl \<le> length content"
  shows "\<exists>doc. extractFunctionDoc funcDecl content repo filePath pkgName imps now = Returns doc
           \<and> Code doc =
               take (EndOffset funcDecl - PosOffset funcDecl) (drop (PosOffset funcDecl) content)
           \<and> HasErrorHandling doc = (\<exists>pre post. Code doc = pre @ ''if err != nil'' @ post)"
  using assms by (simp add: extractFunctionDoc_def Let_def Contains_iff)

theorem error_handling_flag_witness:
  "(\<exists>doc. extractFunctionDoc
      \<lparr>Name = ''f'', Type = \<lparr>Results = Some \<lparr>List = [\<lparr>Names = []\<rparr>]\<rparr>\<rparr>,
       PosOffset = 10, EndOffset = 57\<rparr>
      ''package t func f() error { if err != nil { return err } }'' ''r'' ''f.go'' ''t'' None 0
        = Returns doc
      \<and> Code doc = ''func f() error { if err != nil { return err } }''
      \<and> HasErrorHandling doc)
   \<and> (\<exists>doc. extractFunctionDoc
      \<lparr>Name = ''f'', Type = \<lparr>Results = Some \<lparr>List = [\<lparr>Names = []\<rparr>]\<rparr>\<rparr>,
       PosOffset = 10, EndOffset = 57\<rparr>
      ''package t func f() error { if nil != err { return err } }'' ''r'' ''f.go'' ''t'' None 0
        = Returns doc
      \<and> Code doc = ''func f() error { if nil != err { return err } }''
      \<and> \<not> HasErrorHandling doc)"
  using
    error_handling_flag [of
      "\<lparr>Name = ''f'', Type = \<lparr>Results = Some \<lparr>List = [\<lparr>Names = []\<rparr>]\<rparr>\<rparr>,
        PosOffset = 10, EndOffset = 57\<rparr>"
      "''package t func f() error { if err != nil { return err } }''" "''r''" "''f.go''" "''t''" None 0]
    error_handling_flag [of
      "\<lparr>Name = ''f'', Type = \<lparr>Results = Some \<lparr>List = [\<lparr>Names = []\<rparr>]\<rparr>\<rparr>,
        PosOffset = 10, EndOffset = 57\<rparr>"
      "''package t func f() error { if nil != err { return err } }''" "''r''" "''f.go''" "''t''" None 0]
  by (simp add: extractFunctionDoc_def)

section \<open>Properties of repository synchronisation\<close>

lemma statPaths_append: "statPaths (w @ v) = statPaths w @ statPaths v"
  by (induction w rule: statPaths.induct) auto

lemma gitClone_trace:
  "\<exists>ext. snd (gitClone p url target key cmd w) = w @ ext \<and> statPaths ext = []"
  by (auto simp: gitClone_def combinedOutput_def emit_def Let_def split: prod.splits option.splits)

lemma gitFetch_trace:
  "\<exists>ext. snd (gitFetch p path key cmd w) = w @ ext \<and> statPaths ext = []"
  by (auto simp: gitFetch_def combinedOutput_def emit_def Let_def split: prod.splits option.splits)

lemma cloneOrUpdateRepo_trace:
  "\<exists>ext. snd (cloneOrUpdateRepo p idx r w) = w @ ext \<and> statPaths ext = [gitDir idx r]"
proof -
  let ?st = "osStat p w (gitDir idx r)"
  let ?w1 = "w @ [Stat (gitDir idx r) ?st]"
  show ?thesis
  proof (cases "?st = StatOk")
    case True
    let ?w2 = "?w1 @ [Log ''info'' ''Repository already exists, fetching updates'' [(''repo'', S r)]]"
    obtain ext where e: "snd (gitFetch p (Join (ReposPath (config idx)) r) (GitSSHKeyPath (config idx))
         (getenv p ?w2 ''GIT_SSH_COMMAND'') ?w2) = ?w2 @ ext" "statPaths ext = []"
      using gitFetch_trace by blast
    have "snd (cloneOrUpdateRepo p idx r w) = w @ ([Stat (gitDir idx r) ?st, Log ''info'' ''Repository already exists, fetching updates'' [(''repo'', S r)]] @ ext)"
      using True e(1)
      by (auto simp: cloneOrUpdateRepo_def gitDir_def emit_def Let_def split: prod.splits option.splits)
    moreover have "statPaths ([Stat (gitDir idx r) ?st, Log ''info'' ''Repository already exists, fetching updates'' [(''repo'', S r)]] @ ext) = [gitDir idx r]"
      using e(2) by (simp add: statPaths_append)
    ultimately show ?thesis by blast
  next
    case False
    let ?w2 = "?w1 @ [Log ''info'' ''Cloning repository'' [(''repo'', S r)]]"
    obtain ext where e: "snd (gitClone p (buildRepoURL (GitURLFormat (config idx)) (GitOrg (config idx)) r
                      (GitToken (config idx))) (Join (ReposPath (config idx)) r) (GitSSHKeyPath (config idx))
         (getenv p ?w2 ''GIT_SSH_COMMAND'') ?w2) = ?w2 @ ext" "statPaths ext = []"
      using gitClone_trace by blast
    have "snd (cloneOrUpdateRepo p idx r w) = w @ ([Stat (gitDir idx r) ?st, Log ''info'' ''Cloning repository'' [(''repo'', S r)]] @ ext)"
      using False e(1)
      by (auto simp: cloneOrUpdateRepo_def gitDir_def emit_def Let_def split: prod.splits option.splits)
    moreover have "statPaths ([Stat (gitDir idx r) ?st, Log ''info'' ''Cloning repository'' [(''repo'', S r)]] @ ext) = [gitDir idx r]"
      using e(2) by (simp add: statPaths_append)
    ultimately show ?thesis by blast
  qed
qed

lemma cloneEach_trace:
  "\<exists>ext. cloneEach p idx rs w = w @ ext \<and> statPaths ext = map (gitDir idx) rs"
proof (induction rs arbitrary: w)
  case Nil
  then show ?case by simp
next
  case (Cons r rs)
  obtain e w1 where c: "cloneOrUpdateRepo p idx r w = (e, w1)" by (cases "cloneOrUpdateRepo p idx r w")
  obtain ext1 where x1: "w1 = w @ ext1" "statPaths ext1 = [gitDir idx r]"
    using cloneOrUpdateRepo_trace[of p idx r w] c by auto
  show ?case
  proof (cases e)
    case None
    obtain ext2 where x2: "cloneEach p idx rs w1 = w1 @ ext2" "statPaths ext2 = map (gitDir idx) rs"
      using Cons.IH by blast
    have "cloneEach p idx (r # rs) w = w @ (ext1 @ ext2)" using c None x1 x2 by simp
    moreover have "statPaths (ext1 @ ext2) = map (gitDir idx) (r # rs)"
      using x1 x2 by (simp add: statPaths_append)
    ultimately show ?thesis by blast
  next
    case (Some err)
    let ?w2 = "emit (failureWarning r err) w1"
    obtain ext2 where x2: "cloneEach p idx rs ?w2 = ?w2 @ ext2" "statPaths ext2 = map (gitDir idx) rs"
      using Cons.IH by blast
    have "cloneEach p idx (r # rs) w = w @ (ext1 @ [failureWarning r err] @ ext2)"
      using c Some x1 x2 by (simp add: emit_def failureWarning_def)
    moreover have "statPaths (ext1 @ [failureWarning r err] @ ext2) = map (gitDir idx) (r # rs)"
      using x1 x2 by (simp add: statPaths_append failureWarning_def)
    ultimately show ?thesis by blast
  qed
qed

lemma cloneEach_append:
  "cloneEach p idx (rs @ rs') w = cloneEach p idx rs' (cloneEach p idx rs w)"
  by (induction rs arbitrary: w) (auto split: prod.splits option.splits)

lemma cloneEach_prefix: "\<exists>ext. cloneEach p idx rs w = w @ ext"
  using cloneEach_trace by blast

lemma cloneEach_failure_logged:
  assumes "k < length rs"
    and "fst (cloneOrUpdateRepo p idx (rs ! k) (cloneEach p idx (take k rs) w)) = Some err"
  shows "\<exists>ext. cloneEach p idx rs w = w @ ext \<and> failureWarning (rs ! k) err \<in> set ext"
proof -
  let ?wk = "cloneEach p idx (take k rs) w"
  have split: "rs = take k rs @ (rs ! k) # drop (Suc k) rs"
    using assms(1) by (simp add: id_take_nth_drop)
  obtain w1 where c: "cloneOrUpdateRepo p idx (rs ! k) ?wk = (Some err, w1)"
    using assms(2) by (cases "cloneOrUpdateRepo p idx (rs ! k) ?wk") auto
  obtain ext0 where x0: "?wk = w @ ext0" using cloneEach_prefix by blast
  obtain ext1 where x1: "w1 = ?wk @ ext1"
    using cloneOrUpdateRepo_trace[of p idx "rs ! k" ?wk] c by auto
  have "cloneEach p idx rs w = cloneEach p idx ((rs ! k) # drop (Suc k) rs) ?wk"
    using split cloneEach_append by metis
  also have "\<dots> = cloneEach p idx (drop (Suc k) rs) (emit (failureWarning (rs ! k) err) w1)"
    using c by (simp add: failureWarning_def)
  finally have eq: "cloneEach p idx rs w =
      cloneEach p idx (drop (Suc k) rs) (emit (failureWarning (rs ! k) err) w1)" .
  obtain ext2 where "cloneEach p idx (drop (Suc k) rs) (emit (failureWarning (rs ! k) err) w1)
      = emit (failureWarning (rs ! k) err) w1 @ ext2"
    using cloneEach_prefix by blast
  then have "cloneEach p idx rs w = w @ (ext0 @ ext1 @ [failureWarning (rs ! k) err] @ ext2)"
    using eq x0 x1 by (simp add: emit_def)
  then show ?thesis by force
qed

lemma execCalls_append: "execCalls (w @ v) = execCalls w @ execCalls v"
  by (induction w rule: execCalls.induct) auto

lemma gitClone_commands:
  "\<exists>ext. snd (gitClone p url target key cmd w) = w @ ext \<and> statPaths ext = []
        \<and> execCalls ext = [([''git'', ''clone'', url, target], cloneTimeout)]"
  by (auto simp: gitClone_def combinedOutput_def emit_def Let_def split: prod.splits option.splits)

lemma gitFetch_commands:
  "\<exists>ext. snd (gitFetch p path key cmd w) = w @ ext \<and> statPaths ext = []
        \<and> (execCalls ext = [([''git'', ''-C'', path, ''fetch'', ''--all''], fetchTimeout)]
             \<and> fst (gitFetch p path key cmd w) \<noteq> None
           \<or> execCalls ext =
               [([''git'', ''-C'', path, ''fetch'', ''--all''], fetchTimeout),
                ([''git'', ''-C'', path, ''reset'', ''--hard'', ''origin/HEAD''], fetchTimeout)])"
  by (auto simp: gitFetch_def combinedOutput_def emit_def Let_def split: prod.splits option.splits)

lemma cloneOrUpdateRepo_commands:
  "\<exists>ext. snd (cloneOrUpdateRepo p idx r w) = w @ ext \<and> statPaths ext = [gitDir idx r]
     \<and> (if osStat p w (gitDir idx r) = StatOk
         then (execCalls ext = [fetchCommand idx r] \<and> fst (cloneOrUpdateRepo p idx r w) \<noteq> None
               \<or> execCalls ext = [fetchCommand idx r, resetCommand idx r])
         else execCalls ext = [cloneCommand idx r])"
proof -
  let ?st = "osStat p w (gitDir idx r)"
  let ?w1 = "w @ [Stat (gitDir idx r) ?st]"
  let ?target = "Join (ReposPath (config idx)) r"
  show ?thesis
  proof (cases "?st = StatOk")
    case True
    let ?l = "Log ''info'' ''Repository already exists, fetching updates'' [(''repo'', S r)]"
    let ?w2 = "?w1 @ [?l]"
    let ?f = "gitFetch p ?target (GitSSHKeyPath (config idx)) (getenv p ?w2 ''GIT_SSH_COMMAND'') ?w2"
    obtain ext where e: "snd ?f = ?w2 @ ext" "statPaths ext = []"
      "execCalls ext = [fetchCommand idx r] \<and> fst ?f \<noteq> None
       \<or> execCalls ext = [fetchCommand idx r, resetCommand idx r]"
      using gitFetch_commands[of p ?target "GitSSHKeyPath (config idx)" "getenv p ?w2 ''GIT_SSH_COMMAND''" ?w2]
      unfolding fetchCommand_def resetCommand_def by blast
    have res: "cloneOrUpdateRepo p idx r w =
        ((case fst ?f of Some e \<Rightarrow> Some (Wrap ''failed to fetch'' e) | None \<Rightarrow> None), snd ?f)"
      using True
      by (auto simp: cloneOrUpdateRepo_def gitDir_def emit_def Let_def split: prod.splits option.splits)
    have "snd (cloneOrUpdateRepo p idx r w) = w @ ([Stat (gitDir idx r) ?st, ?l] @ ext)"
      using res e(1) by simp
    moreover have "statPaths ([Stat (gitDir idx r) ?st, ?l] @ ext) = [gitDir idx r]"
      using e(2) by (simp add: statPaths_append)
    moreover have "execCalls ([Stat (gitDir idx r) ?st, ?l] @ ext) = execCalls ext"
      by (simp add: execCalls_append)
    moreover have "fst ?f \<noteq> None \<Longrightarrow> fst (cloneOrUpdateRepo p idx r w) \<noteq> None"
      using res by (auto split: option.splits)
    ultimately show ?thesis using True e(3) by (intro exI[of _ "[Stat (gitDir idx r) ?st, ?l] @ ext"]) auto
  next
    case False
    let ?l = "Log ''info'' ''Cloning repository'' [(''repo'', S r)]"
    let ?w2 = "?w1 @ [?l]"
    let ?url = "buildRepoURL (GitURLFormat (config idx)) (GitOrg (config idx)) r (GitToken (config idx))"
    let ?c = "gitClone p ?url ?target (GitSSHKeyPath (config idx)) (getenv p ?w2 ''GIT_SSH_COMMAND'') ?w2"
    obtain ext where e: "snd ?c = ?w2 @ ext" "statPaths ext = []" "execCalls ext = [cloneCommand idx r]"
      using gitClone_commands[of p ?url ?target "GitSSHKeyPath (config idx)" "getenv p ?w2 ''GIT_SSH_COMMAND''" ?w2]
      unfolding cloneCommand_def by blast
    have "snd (cloneOrUpdateRepo p idx r w) = w @ ([Stat (gitDir idx r) ?st, ?l] @ ext)"
      using False e(1)
      by (auto simp: cloneOrUpdateRepo_def gitDir_def emit_def Let_def split: prod.splits option.splits)
    moreover have "statPaths ([Stat (gitDir idx r) ?st, ?l] @ ext) = [gitDir idx r]"
      using e(2) by (simp add: statPaths_append)
    moreover have "execCalls ([Stat (gitDir idx r) ?st, ?l] @ ext) = execCalls ext"
      by (simp add: execCalls_append)
    ultimately show ?thesis using False e(3) by (intro exI[of _ "[Stat (gitDir idx r) ?st, ?l] @ ext"]) auto
  qed
qed

text \<open>One more repository: the world after it extends the world before it by its segment.\<close>

lemma cloneEach_snoc:
  "\<exists>seg. cloneEach p idx (rs @ [r]) w = cloneEach p idx rs w @ seg
     \<and> statPaths seg = [gitDir idx r]
     \<and> (if osStat p (cloneEach p idx rs w) (gitDir idx r) = StatOk
         then (execCalls seg = [fetchCommand idx r]
                 \<and> fst (cloneOrUpdateRepo p idx r (cloneEach p idx rs w)) \<noteq> None
               \<or> execCalls seg = [fetchCommand idx r, resetCommand idx r])
         else execCalls seg = [cloneCommand idx r])"
proof -
  let ?wk = "cloneEach p idx rs w"
  obtain ext where e: "snd (cloneOrUpdateRepo p idx r ?wk) = ?wk @ ext" "statPaths ext = [gitDir idx r]"
     "if osStat p ?wk (gitDir idx r) = StatOk
         then (execCalls ext = [fetchCommand idx r] \<and> fst (cloneOrUpdateRepo p idx r ?wk) \<noteq> None
               \<or> execCalls ext = [fetchCommand idx r, resetCommand idx r])
         else execCalls ext = [cloneCommand idx r]"
    using cloneOrUpdateRepo_commands by blast
  obtain res w1 where c: "cloneOrUpdateRepo p idx r ?wk = (res, w1)"
    by (cases "cloneOrUpdateRepo p idx r ?wk")
  have step: "cloneEach p idx (rs @ [r]) w = cloneEach p idx [r] ?wk"
    by (simp add: cloneEach_append)
  show ?thesis
  proof (cases res)
    case None
    then have "cloneEach p idx (rs @ [r]) w = ?wk @ ext" using step c e(1) by simp
    then show ?thesis using e(2,3) by blast
  next
    case (Some err)
    then have "cloneEach p idx (rs @ [r]) w = ?wk @ (ext @ [failureWarning r err])"
      using step c e(1) by (simp add: emit_def failureWarning_def)
    moreover have "statPaths (ext @ [failureWarning r err]) = statPaths ext"
      and "execCalls (ext @ [failureWarning r err]) = execCalls ext"
      by (simp_all add: statPaths_append execCalls_append failureWarning_def)
    ultimately show ?thesis using e(2,3) by (intro exI[of _ "ext @ [failureWarning r err]"]) auto
  qed
qed

lemma worldAt_step:
  assumes "k < length (GitRepos (config idx))"
  shows "\<exists>seg. worldAt p idx w (Suc k) = worldAt p idx w k @ seg
     \<and> statPaths seg = [gitDir idx (GitRepos (config idx) ! k)]
     \<and> (if osStat p (worldAt p idx w k) (gitDir idx (GitRepos (config idx) ! k)) = StatOk
         then (execCalls seg = [fetchCommand idx (GitRepos (config idx) ! k)]
                 \<and> fst (cloneOrUpdateRepo p idx (GitRepos (config idx) ! k) (worldAt p idx w k)) \<noteq> None
               \<or> execCalls seg = [fetchCommand idx (GitRepos (config idx) ! k),
                                   resetCommand idx (GitRepos (config idx) ! k)])
         else execCalls seg = [cloneCommand idx (GitRepos (config idx) ! k)])"
  unfolding worldAt_def take_Suc_conv_app_nth[OF assms] by (rule cloneEach_snoc)

text \<open>
  C9. \<open>CloneRepos\<close> returns \<open>ErrGitConfigRequired\<close> exactly when the organisation or
  the repository list is empty, and then does nothing. Otherwise its first act is to
  make the repositories directory; if that fails it returns the wrapped error and
  synchronises nothing; if it succeeds, the call returns nil and the configured
  repositories are synchronised one after the other, in the configured order, whatever
  the others did: the world after repository \<open>k\<close> extends the world before it by a
  segment that looks once for the repository's \<open>.git\<close> directory and then runs git on
  it, \<open>git clone\<close> of its URL into its directory (within five minutes) if there is
  no working copy, and otherwise \<open>git fetch --all\<close> followed, unless the
  synchronisation failed, by \<open>git reset --hard origin/HEAD\<close> (within two minutes
  each), and nothing else. Every repository whose synchronisation fails in its turn
  has a warning in the log.
\<close>

theorem CloneRepos_requires_configuration:
  "(fst (CloneRepos p idx w) = Some ErrGitConfigRequired
      \<longleftrightarrow> GitOrg (config idx) = [] \<or> GitRepos (config idx) = [])
   \<and> (GitOrg (config idx) = [] \<or> GitRepos (config idx) = [] \<longrightarrow> snd (CloneRepos p idx w) = w)
   \<and> (GitOrg (config idx) \<noteq> [] \<and> GitRepos (config idx) \<noteq> [] \<longrightarrow>
        (\<exists>ext. snd (CloneRepos p idx w) =
                 w @ MkdirAll (ReposPath (config idx)) (osMkdirAll p w (ReposPath (config idx))) # ext
           \<and> (\<forall>e. osMkdirAll p w (ReposPath (config idx)) = Some e \<longrightarrow>
                  ext = [] \<and>
                  fst (CloneRepos p idx w) = Some (Wrap ''failed to create repos directory'' e))
           \<and> (osMkdirAll p w (ReposPath (config idx)) = None \<longrightarrow>
                  fst (CloneRepos p idx w) = None
                \<and> statPaths ext = map (gitDir idx) (GitRepos (config idx))
                \<and> (\<forall>k err. k < length (GitRepos (config idx))
                       \<and> fst (cloneOrUpdateRepo p idx (GitRepos (config idx) ! k) (worldAt p idx w k))
                           = Some err
                     \<longrightarrow> failureWarning (GitRepos (config idx) ! k) err \<in> set ext)
                \<and> worldAt p idx w 0 =
                    w @ [MkdirAll (ReposPath (config idx)) (osMkdirAll p w (ReposPath (config idx)))]
                \<and> worldAt p idx w (length (GitRepos (config idx))) = snd (CloneRepos p idx w)
                \<and> (\<forall>k. k < length (GitRepos (config idx)) \<longrightarrow>
                     (\<exists>seg. worldAt p idx w (Suc k) = worldAt p idx w k @ seg
                        \<and> statPaths seg = [gitDir idx (GitRepos (config idx) ! k)]
                        \<and> (if osStat p (worldAt p idx w k) (gitDir idx (GitRepos (config idx) ! k))
                                = StatOk
                            then (execCalls seg = [fetchCommand idx (GitRepos (config idx) ! k)]
                                    \<and> fst (cloneOrUpdateRepo p idx (GitRepos (config idx) ! k)
                                             (worldAt p idx w k)) \<noteq> None
                                  \<or> execCalls seg =
                                      [fetchCommand idx (GitRepos (config idx) ! k),
                                       resetCommand idx (GitRepos (config idx) ! k)])
                            else execCalls seg =
                                   [cloneCommand idx (GitRepos (config idx) ! k)]))))))"
proof (intro conjI impI)
  show "fst (CloneRepos p idx w) = Some ErrGitConfigRequired
      \<longleftrightarrow> GitOrg (config idx) = [] \<or> GitRepos (config idx) = []"
    by (auto simp: CloneRepos_def Let_def split: option.splits)
next
  assume "GitOrg (config idx) = [] \<or> GitRepos (config idx) = []"
  then show "snd (CloneRepos p idx w) = w"
    by (auto simp: CloneRepos_def)
next
  assume cfg: "GitOrg (config idx) \<noteq> [] \<and> GitRepos (config idx) \<noteq> []"
  let ?path = "ReposPath (config idx)"
  let ?r = "osMkdirAll p w ?path"
  let ?w1 = "emit (MkdirAll ?path ?r) w"
  let ?rs = "GitRepos (config idx)"
  let ?steps = "\<lambda>k. \<exists>seg. worldAt p idx w (Suc k) = worldAt p idx w k @ seg
                        \<and> statPaths seg = [gitDir idx (?rs ! k)]
                        \<and> (if osStat p (worldAt p idx w k) (gitDir idx (?rs ! k)) = StatOk
                            then (execCalls seg = [fetchCommand idx (?rs ! k)]
                                    \<and> fst (cloneOrUpdateRepo p idx (?rs ! k) (worldAt p idx w k)) \<noteq> None
                                  \<or> execCalls seg =
                                      [fetchCommand idx (?rs ! k), resetCommand idx (?rs ! k)])
                            else execCalls seg = [cloneCommand idx (?rs ! k)])"
  show "\<exists>ext. snd (CloneRepos p idx w) = w @ MkdirAll ?path ?r # ext
           \<and> (\<forall>e. ?r = Some e \<longrightarrow>
                  ext = [] \<and>
                  fst (CloneRepos p idx w) = Some (Wrap ''failed to create repos directory'' e))
           \<and> (?r = None \<longrightarrow>
                  fst (CloneRepos p idx w) = None
                \<and> statPaths ext = map (gitDir idx) ?rs
                \<and> (\<forall>k err. k < length ?rs
                       \<and> fst (cloneOrUpdateRepo p idx (?rs ! k) (worldAt p idx w k)) = Some err
                     \<longrightarrow> failureWarning (?rs ! k) err \<in> set ext)
                \<and> worldAt p idx w 0 = w @ [MkdirAll ?path ?r]
                \<and> worldAt p idx w (length ?rs) = snd (CloneRepos p idx w)
                \<and> (\<forall>k. k < length ?rs \<longrightarrow> ?steps k))"
  proof (cases ?r)
    case (Some e)
    then have "snd (CloneRepos p idx w) = w @ MkdirAll ?path ?r # []"
      and "fst (CloneRepos p idx w) = Some (Wrap ''failed to create repos directory'' e)"
      using cfg by (auto simp: CloneRepos_def Let_def emit_def)
    then show ?thesis using Some by auto
  next
    case None
    obtain ext where x: "cloneEach p idx ?rs ?w1 = ?w1 @ ext" "statPaths ext = map (gitDir idx) ?rs"
      using cloneEach_trace by blast
    have res: "CloneRepos p idx w = (None, cloneEach p idx ?rs ?w1)"
      using cfg None by (simp add: CloneRepos_def Let_def)
    have logged: "failureWarning (?rs ! k) err \<in> set ext"
      if kl: "k < length ?rs"
        and fl: "fst (cloneOrUpdateRepo p idx (?rs ! k) (worldAt p idx w k)) = Some err"
      for k err
    proof -
      obtain ext' where "cloneEach p idx ?rs ?w1 = ?w1 @ ext'" "failureWarning (?rs ! k) err \<in> set ext'"
        using cloneEach_failure_logged[of k ?rs p idx ?w1 err] kl fl by (auto simp: worldAt_def)
      then show ?thesis using x(1) by simp
    qed
    have first: "worldAt p idx w 0 = w @ [MkdirAll ?path ?r]"
      by (simp add: worldAt_def emit_def)
    have last: "worldAt p idx w (length ?rs) = snd (CloneRepos p idx w)"
      using res by (simp add: worldAt_def)
    have steps: "\<forall>k. k < length ?rs \<longrightarrow> ?steps k"
      using worldAt_step[of _ idx p w] by blast
    have "snd (CloneRepos p idx w) = w @ MkdirAll ?path ?r # ext"
      using res x(1) by (simp add: emit_def)
    then show ?thesis using None res x(2) logged first last steps
      by (intro exI[of _ ext]) (simp only: simp_thms fst_conv option.simps, blast)
  qed
qed

theorem CloneRepos_requires_configuration_witness:
  "fst (CloneRepos failingGit sampleIndexer []) = None
   \<and> statPaths (snd (CloneRepos failingGit sampleIndexer [])) = [''/repos/a/.git'', ''/repos/b/.git'']
   \<and> execCalls (snd (CloneRepos failingGit sampleIndexer [])) =
       [([''git'', ''clone'', ''git@github.com:org/a.git'', ''/repos/a''], 300000000000),
        ([''git'', ''clone'', ''git@github.com:org/b.git'', ''/repos/b''], 300000000000)]
   \<and> failureWarning ''a'' (Wrap ''failed to clone'' (CommandFailed ''git clone failed''
        (External ''exit status 128'') ''fatal: repository not found''))
      \<in> set (snd (CloneRepos failingGit sampleIndexer []))
   \<and> failureWarning ''b'' (Wrap ''failed to clone'' (CommandFailed ''git clone failed''
        (External ''exit status 128'') ''fatal: repository not found''))
      \<in> set (snd (CloneRepos failingGit sampleIndexer []))
   \<and> CloneRepos failingGit (sampleIndexer\<lparr>config := (config sampleIndexer)\<lparr>GitRepos := []\<rparr>\<rparr>) [] =
       (Some ErrGitConfigRequired, [])"
proof -
  let ?rs = "GitRepos (config sampleIndexer)"
  have f: "fst (cloneOrUpdateRepo failingGit sampleIndexer r w) = Some (Wrap ''failed to clone''
      (CommandFailed ''git clone failed'' (External ''exit status 128'') ''fatal: repository not found''))"
    for r w
    by (simp add: cloneOrUpdateRepo_def failingGit_def idlePlatform_def gitClone_def
        combinedOutput_def Let_def sampleIndexer_def)
  have m: "osMkdirAll failingGit [] (ReposPath (config sampleIndexer)) = None"
    by (simp add: failingGit_def idlePlatform_def)
  have st: "osStat failingGit w path \<noteq> StatOk" for w path
    by (simp add: failingGit_def idlePlatform_def)
  have c: "GitOrg (config sampleIndexer) \<noteq> [] \<and> ?rs \<noteq> []"
    by (simp add: sampleIndexer_def)
  have l: "length ?rs = 2" "?rs ! 0 = ''a''" "?rs ! 1 = ''b''" "?rs ! Suc 0 = ''b''"
    by (simp_all add: sampleIndexer_def)
  have cmd: "cloneCommand sampleIndexer ''a'' =
      ([''git'', ''clone'', ''git@github.com:org/a.git'', ''/repos/a''], 300000000000)"
    "cloneCommand sampleIndexer ''b'' =
      ([''git'', ''clone'', ''git@github.com:org/b.git'', ''/repos/b''], 300000000000)"
    by (simp_all add: cloneCommand_def sampleIndexer_def buildRepoURL_def ReplaceAll_def
        Replace.simps Join_def cloneTimeout_def minute_def millisecond_def)
  have e: "CloneRepos failingGit (sampleIndexer\<lparr>config := (config sampleIndexer)\<lparr>GitRepos := []\<rparr>\<rparr>) [] =
      (Some ErrGitConfigRequired, [])"
    by (simp add: CloneRepos_def)
  from CloneRepos_requires_configuration [of failingGit sampleIndexer "[]"] c m
  obtain ext where x: "snd (CloneRepos failingGit sampleIndexer []) =
        [] @ MkdirAll (ReposPath (config sampleIndexer)) None # ext"
    "fst (CloneRepos failingGit sampleIndexer []) = None"
    "statPaths ext = map (gitDir sampleIndexer) ?rs"
    "\<forall>k err. k < length ?rs
        \<and> fst (cloneOrUpdateRepo failingGit sampleIndexer (?rs ! k) (worldAt failingGit sampleIndexer [] k))
            = Some err
      \<longrightarrow> failureWarning (?rs ! k) err \<in> set ext"
    "worldAt failingGit sampleIndexer [] 0 = [] @ [MkdirAll (ReposPath (config sampleIndexer)) None]"
    "worldAt failingGit sampleIndexer [] (length ?rs) = snd (CloneRepos failingGit sampleIndexer [])"
    "\<forall>k. k < length ?rs \<longrightarrow>
       (\<exists>seg. worldAt failingGit sampleIndexer [] (Suc k) = worldAt failingGit sampleIndexer [] k @ seg
          \<and> statPaths seg = [gitDir sampleIndexer (?rs ! k)]
          \<and> (if osStat failingGit (worldAt failingGit sampleIndexer [] k)
                   (gitDir sampleIndexer (?rs ! k)) = StatOk
              then (execCalls seg = [fetchCommand sampleIndexer (?rs ! k)]
                      \<and> fst (cloneOrUpdateRepo failingGit sampleIndexer (?rs ! k)
                               (worldAt failingGit sampleIndexer [] k)) \<noteq> None
                    \<or> execCalls seg = [fetchCommand sampleIndexer (?rs ! k),
                                        resetCommand sampleIndexer (?rs ! k)])
              else execCalls seg = [cloneCommand sampleIndexer (?rs ! k)]))"
    by auto
  obtain seg0 where s0: "worldAt failingGit sampleIndexer [] (Suc 0) =
        worldAt failingGit sampleIndexer [] 0 @ seg0"
      "execCalls seg0 = [cloneCommand sampleIndexer ''a'']"
    using x(7)[rule_format, of 0] l st by auto
  obtain seg1 where s1: "worldAt failingGit sampleIndexer [] (Suc (Suc 0)) =
        worldAt failingGit sampleIndexer [] (Suc 0) @ seg1"
      "execCalls seg1 = [cloneCommand sampleIndexer ''b'']"
    using x(7)[rule_format, of "Suc 0"] l st by auto
  have "snd (CloneRepos failingGit sampleIndexer []) =
      [MkdirAll (ReposPath (config sampleIndexer)) None] @ seg0 @ seg1"
    using x(5,6) s0(1) s1(1) l(1) by (simp add: numeral_2_eq_2)
  then have calls: "execCalls (snd (CloneRepos failingGit sampleIndexer [])) =
      [cloneCommand sampleIndexer ''a'', cloneCommand sampleIndexer ''b'']"
    using s0(2) s1(2) by (simp add: execCalls_append)
  have "failureWarning ''a'' (Wrap ''failed to clone'' (CommandFailed ''git clone failed''
        (External ''exit status 128'') ''fatal: repository not found'')) \<in> set ext"
    using x(4)[rule_format, of 0] f l by simp
  moreover have "failureWarning ''b'' (Wrap ''failed to clone'' (CommandFailed ''git clone failed''
        (External ''exit status 128'') ''fatal: repository not found'')) \<in> set ext"
    using x(4)[rule_format, of 1] f l by simp
  moreover have "statPaths ext = [''/repos/a/.git'', ''/repos/b/.git'']"
    using x(3) by (simp add: sampleIndexer_def gitDir_def Join_def)
  ultimately show ?thesis using x(1,2) e calls cmd by simp
qed

text \<open>
  C10. With a non-empty organisation and repository list and a repositories directory
  that can be made, \<open>CloneRepos\<close> returns nil on every platform, so the result with
  every repository failing is the result with every repository succeeding.
\<close>

theorem CloneRepos_hides_repository_failures:
  assumes "GitOrg (config idx) \<noteq> []" and "GitRepos (config idx) \<noteq> []"
    and "osMkdirAll p w (ReposPath (config idx)) = None"
    and "osMkdirAll p' w' (ReposPath (config idx)) = None"
  shows "fst (CloneRepos p idx w) = None \<and> fst (CloneRepos p idx w) = fst (CloneRepos p' idx w')"
  using assms by (simp add: CloneRepos_def Let_def)


theorem CloneRepos_hides_repository_failures_witness:
  "fst (CloneRepos failingGit sampleIndexer []) = None
   \<and> fst (CloneRepos failingGit sampleIndexer []) = fst (CloneRepos idlePlatform sampleIndexer [])
   \<and> (\<forall>r w. fst (cloneOrUpdateRepo failingGit sampleIndexer r w) \<noteq> None)
   \<and> (\<forall>r w. fst (cloneOrUpdateRepo idlePlatform sampleIndexer r w) = None)"
proof -
  have "fst (cloneOrUpdateRepo failingGit sampleIndexer r w) \<noteq> None" for r w
    by (simp add: cloneOrUpdateRepo_def failingGit_def idlePlatform_def gitClone_def
        combinedOutput_def Let_def sampleIndexer_def)
  moreover have "fst (cloneOrUpdateRepo idlePlatform sampleIndexer r w) = None" for r w
    by (simp add: cloneOrUpdateRepo_def idlePlatform_def gitClone_def
        combinedOutput_def Let_def sampleIndexer_def)
  moreover have "GitOrg (config sampleIndexer) \<noteq> []" and "GitRepos (config sampleIndexer) \<noteq> []"
    and "osMkdirAll failingGit [] (ReposPath (config sampleIndexer)) = None"
    and "osMkdirAll idlePlatform [] (ReposPath (config sampleIndexer)) = None"
    by (simp_all add: sampleIndexer_def failingGit_def idlePlatform_def)
  then have "fst (CloneRepos failingGit sampleIndexer []) = None
     \<and> fst (CloneRepos failingGit sampleIndexer []) = fst (CloneRepos idlePlatform sampleIndexer [])"
    by (rule CloneRepos_hides_repository_failures)
  ultimately show ?thesis by blast
qed

section \<open>Properties of the retry wrapper\<close>

lemma httpCount_append: "httpCount (w @ v) = httpCount w + httpCount v"
  by (induction w rule: httpCount.induct) auto

lemma httpCount_retryTrace: "httpCount (retryTrace req answers k) = Suc k"
  by (induction k) (auto simp: httpCount_append)

lemma httpCount_traceBefore: "httpCount (traceBefore req answers a) = a"
  by (cases a) (auto simp: traceBefore_def httpCount_retryTrace)

lemma attempt_step:
  assumes H1: "\<And>ext. httpDo p (w @ ext) req = answers (httpCount ext)"
    and H2: "\<And>ext d. ctxDone p (w @ ext) d = None"
    and a: "a \<le> maxRetries"
  shows "retryLoop p req a (retryBackoff * 2 ^ (a - 1)) resp err (w @ traceBefore req answers a) =
     (case answers a of
        Inl e \<Rightarrow> retryLoop p req (Suc a) (retryBackoff * 2 ^ a) None (Some e) (w @ retryTrace req answers a)
      | Inr r \<Rightarrow> if StatusCode r < 500 then ((Some r, None), w @ retryTrace req answers a)
                else retryLoop p req (Suc a) (retryBackoff * 2 ^ a) (Some r) None (w @ retryTrace req answers a))"
proof (cases a)
  case 0
  have "httpDo p w req = answers 0" using H1[of "[]"] by simp
  then show ?thesis using 0 a
    by (subst retryLoop.simps)
       (auto simp: traceBefore_def clientDo_def emit_def Let_def split: sum.splits)
next
  case (Suc j)
  let ?t = "retryTrace req answers j"
  let ?d = "retryBackoff * 2 ^ j"
  have c: "ctxDone p (w @ ?t) ?d = None" using H2 by simp
  have h: "httpDo p ((w @ ?t) @ [Select ?d None]) req = answers (Suc j)"
    using H1[of "?t @ [Select ?d None]"] by (simp add: httpCount_append httpCount_retryTrace)
  show ?thesis using Suc a c h
    by (subst retryLoop.simps)
       (auto simp: traceBefore_def clientDo_def selectBackoff_def emit_def Let_def
             retryMultiplier_def mult_ac split: sum.splits)
qed

lemma retryLoop_returns:
  assumes H1: "\<And>ext. httpDo p (w @ ext) req = answers (httpCount ext)"
    and H2: "\<And>ext d. ctxDone p (w @ ext) d = None"
    and k: "k \<le> maxRetries" and r: "answers k = Inr r" "StatusCode r < 500"
  shows "a \<le> k \<Longrightarrow> (\<forall>i. a \<le> i \<and> i < k \<longrightarrow> retryable (answers i)) \<Longrightarrow>
     retryLoop p req a (retryBackoff * 2 ^ (a - 1)) resp err (w @ traceBefore req answers a) =
       ((Some r, None), w @ retryTrace req answers k)"
proof (induction "k - a" arbitrary: a resp err)
  case 0
  then have "a = k" by simp
  then show ?case using attempt_step[OF H1 H2, of a resp err] k r by simp
next
  case (Suc n)
  then have lt: "a < k" by simp
  then have ra: "retryable (answers a)" using Suc.prems by simp
  have al: "a \<le> maxRetries" using lt k by simp
  have tb: "traceBefore req answers (Suc a) = retryTrace req answers a" by (simp add: traceBefore_def)
  have IH: "retryLoop p req (Suc a) (retryBackoff * 2 ^ a) resp' err' (w @ retryTrace req answers a) =
       ((Some r, None), w @ retryTrace req answers k)" for resp' err'
    using Suc.hyps(1)[of "Suc a" resp' err'] Suc.hyps(2) lt Suc.prems(2) tb by simp
  show ?case using attempt_step[OF H1 H2 al, of resp err] ra IH
    by (auto simp: retryable_def split: sum.splits)
qed

lemma retryLoop_exhausts:
  assumes H1: "\<And>ext. httpDo p (w @ ext) req = answers (httpCount ext)"
    and H2: "\<And>ext d. ctxDone p (w @ ext) d = None"
    and all: "\<forall>i \<le> maxRetries. retryable (answers i)"
  shows "a \<le> maxRetries \<Longrightarrow>
     retryLoop p req a (retryBackoff * 2 ^ (a - 1)) resp err (w @ traceBefore req answers a) =
       ((case answers maxRetries of
           Inl e \<Rightarrow> (None, Some e)
         | Inr r \<Rightarrow> (Some r, Some (RetriesExhausted maxRetries (StatusCode r)))),
        w @ retryTrace req answers maxRetries)"
proof (induction "maxRetries - a" arbitrary: a resp err)
  case 0
  then have am: "a = maxRetries" by simp
  have ra: "retryable (answers maxRetries)" using all by simp
  have out: "retryLoop p req (Suc maxRetries) b resp' err' w' =
      (case (resp', err') of
           (Some r, None) \<Rightarrow> ((resp', Some (RetriesExhausted maxRetries (StatusCode r))), w')
         | _ \<Rightarrow> ((resp', err'), w'))" for b resp' err' w'
    by (subst retryLoop.simps) simp
  show ?case using attempt_step[OF H1 H2, of a resp err] am ra
    by (auto simp: retryable_def out split: sum.splits)
next
  case (Suc n)
  then have lt: "a < maxRetries" by simp
  have ra: "retryable (answers a)" using all lt by simp
  have tb: "traceBefore req answers (Suc a) = retryTrace req answers a" by (simp add: traceBefore_def)
  have IH: "retryLoop p req (Suc a) (retryBackoff * 2 ^ a) resp' err' (w @ retryTrace req answers a) =
       ((case answers maxRetries of
           Inl e \<Rightarrow> (None, Some e)
         | Inr r \<Rightarrow> (Some r, Some (RetriesExhausted maxRetries (StatusCode r)))),
        w @ retryTrace req answers maxRetries)" for resp' err'
    using Suc.hyps(1)[of "Suc a" resp' err'] Suc.hyps(2) lt tb by simp
  show ?case using attempt_step[OF H1 H2, of a resp err] lt ra IH
    by (auto simp: retryable_def split: sum.splits)
qed

lemma selectDelays_append: "selectDelays (w @ v) = selectDelays w @ selectDelays v"
  by (induction w rule: selectDelays.induct) auto

lemma selectDelays_retryTrace:
  "selectDelays (retryTrace req answers k) = map (\<lambda>i. retryBackoff * 2 ^ i) [0..<k]"
  by (induction k) (auto simp: selectDelays_append)

text \<open>
  C2. Take a request whose attempt \<open>i\<close> is answered by \<open>answers i\<close>, on a context that
  is never done. An answer is retried when it is a transport error or a response with
  status 500 or more. If the first answer that is not retried is a response at attempt
  \<open>k\<close>, within the \<open>maxRetries\<close> retries, the wrapper returns that response with a nil
  error at once: the trace ends with attempt \<open>k\<close>. If all \<open>maxRetries + 1\<close> answers
  are retried, it stops after attempt \<open>maxRetries\<close> with an error (the transport error,
  or the exhaustion error naming the last status). In both cases the trace has one
  request per attempt and, between attempt \<open>i\<close> and the next, one wait of the base
  backoff doubled \<open>i\<close> times.
\<close>

theorem doRequestWithRetry_backoff:
  assumes "\<forall>ext. httpDo p (w @ ext) req = answers (httpCount ext)"
    and "\<forall>ext d. ctxDone p (w @ ext) d = None"
  shows "(\<forall>k r. k \<le> maxRetries \<and> (\<forall>i<k. retryable (answers i)) \<and> answers k = Inr r
             \<and> StatusCode r < 500 \<longrightarrow>
           doRequestWithRetry p req w = ((Some r, None), w @ retryTrace req answers k))
       \<and> ((\<forall>i\<le>maxRetries. retryable (answers i)) \<longrightarrow>
           doRequestWithRetry p req w =
             ((case answers maxRetries of
                 Inl e \<Rightarrow> (None, Some e)
               | Inr r \<Rightarrow> (Some r, Some (RetriesExhausted maxRetries (StatusCode r)))),
              w @ retryTrace req answers maxRetries))
       \<and> (\<forall>k. httpCount (retryTrace req answers k) = Suc k
             \<and> selectDelays (retryTrace req answers k) = map (\<lambda>i. retryBackoff * 2 ^ i) [0..<k])"
proof (intro conjI allI impI)
  fix k r
  assume h: "k \<le> maxRetries \<and> (\<forall>i<k. retryable (answers i)) \<and> answers k = Inr r \<and> StatusCode r < 500"
  have "retryLoop p req 0 (retryBackoff * 2 ^ (0 - 1)) None None (w @ traceBefore req answers 0) =
       ((Some r, None), w @ retryTrace req answers k)"
    using assms h by (intro retryLoop_returns) auto
  then show "doRequestWithRetry p req w = ((Some r, None), w @ retryTrace req answers k)"
    by (simp add: doRequestWithRetry_def traceBefore_def)
next
  assume h: "\<forall>i\<le>maxRetries. retryable (answers i)"
  have "retryLoop p req 0 (retryBackoff * 2 ^ (0 - 1)) None None (w @ traceBefore req answers 0) =
       ((case answers maxRetries of
           Inl e \<Rightarrow> (None, Some e)
         | Inr r \<Rightarrow> (Some r, Some (RetriesExhausted maxRetries (StatusCode r)))),
        w @ retryTrace req answers maxRetries)"
    using assms h by (intro retryLoop_exhausts) auto
  then show "doRequestWithRetry p req w =
             ((case answers maxRetries of
                 Inl e \<Rightarrow> (None, Some e)
               | Inr r \<Rightarrow> (Some r, Some (RetriesExhausted maxRetries (StatusCode r)))),
              w @ retryTrace req answers maxRetries)"
    by (simp add: doRequestWithRetry_def traceBefore_def)
next
  fix k show "httpCount (retryTrace req answers k) = Suc k" by (rule httpCount_retryTrace)
next
  fix k show "selectDelays (retryTrace req answers k) = map (\<lambda>i. retryBackoff * 2 ^ i) [0..<k]"
    by (rule selectDelays_retryTrace)
qed

theorem doRequestWithRetry_backoff_witness:
  "doRequestWithRetry (scripted (\<lambda>n. if n < 2 then status 500 else status 200))
       (createRequest (indexerES sampleIndexer)) [] =
     ((Some \<lparr>StatusCode = 200, Status = [], Body = NoBody\<rparr>, None),
      [Http (createRequest (indexerES sampleIndexer)) (status 500), Select 500000000 None,
       Http (createRequest (indexerES sampleIndexer)) (status 500), Select 1000000000 None,
       Http (createRequest (indexerES sampleIndexer)) (status 200)])
   \<and> doRequestWithRetry (scripted (\<lambda>n. status 400)) (createRequest (indexerES sampleIndexer)) [] =
     ((Some \<lparr>StatusCode = 400, Status = [], Body = NoBody\<rparr>, None),
      [Http (createRequest (indexerES sampleIndexer)) (status 400)])
   \<and> doRequestWithRetry (scripted (\<lambda>n. status 503)) (createRequest (indexerES sampleIndexer)) [] =
     ((Some \<lparr>StatusCode = 503, Status = [], Body = NoBody\<rparr>, Some (RetriesExhausted 3 503)),
      [Http (createRequest (indexerES sampleIndexer)) (status 503), Select 500000000 None,
       Http (createRequest (indexerES sampleIndexer)) (status 503), Select 1000000000 None,
       Http (createRequest (indexerES sampleIndexer)) (status 503), Select 2000000000 None,
       Http (createRequest (indexerES sampleIndexer)) (status 503)])"
proof -
  let ?req = "createRequest (indexerES sampleIndexer)"
  have scr: "\<forall>ext. httpDo (scripted answers) ([] @ ext) ?req = answers (httpCount ext)"
    and ctx: "\<forall>ext d. ctxDone (scripted answers) ([] @ ext) d = None" for answers
    by (simp_all add: scripted_def idlePlatform_def)
  have two: "retryTrace ?req answers 2 =
      [Http ?req (answers 0), Select 500000000 None, Http ?req (answers 1), Select 1000000000 None,
       Http ?req (answers 2)]"
    and three: "retryTrace ?req answers 3 =
      [Http ?req (answers 0), Select 500000000 None, Http ?req (answers 1), Select 1000000000 None,
       Http ?req (answers 2), Select 2000000000 None, Http ?req (answers 3)]" for answers
    by (simp_all add: numeral_2_eq_2 numeral_3_eq_3 retryBackoff_def millisecond_def)
  have "doRequestWithRetry (scripted (\<lambda>n. if n < 2 then status 500 else status 200)) ?req [] =
     ((Some \<lparr>StatusCode = 200, Status = [], Body = NoBody\<rparr>, None),
      [] @ retryTrace ?req (\<lambda>n. if n < 2 then status 500 else status 200) 2)"
    using doRequestWithRetry_backoff [OF scr ctx, of "\<lambda>n. if n < 2 then status 500 else status 200",
        THEN conjunct1, rule_format, of 2 "\<lparr>StatusCode = 200, Status = [], Body = NoBody\<rparr>"]
    by (simp add: maxRetries_def retryable_def status_def)
  moreover have "doRequestWithRetry (scripted (\<lambda>n. status 400)) ?req [] =
     ((Some \<lparr>StatusCode = 400, Status = [], Body = NoBody\<rparr>, None),
      [] @ retryTrace ?req (\<lambda>n. status 400) 0)"
    using doRequestWithRetry_backoff [OF scr ctx, of "\<lambda>n. status 400",
        THEN conjunct1, rule_format, of 0 "\<lparr>StatusCode = 400, Status = [], Body = NoBody\<rparr>"]
    by (simp add: maxRetries_def retryable_def status_def)
  moreover have "doRequestWithRetry (scripted (\<lambda>n. status 503)) ?req [] =
     ((Some \<lparr>StatusCode = 503, Status = [], Body = NoBody\<rparr>, Some (RetriesExhausted 3 503)),
      [] @ retryTrace ?req (\<lambda>n. status 503) 3)"
    using doRequestWithRetry_backoff [OF scr ctx, of "\<lambda>n. status 503",
        THEN conjunct2, THEN conjunct1]
    by (simp add: maxRetries_def retryable_def status_def)
  ultimately show ?thesis by (simp add: two three del: retryTrace.simps(2))
qed

section \<open>Properties of index provisioning\<close>

lemma storeAfter_append: "storeAfter s (w @ v) = storeAfter (storeAfter s w) v"
  by (induction s w rule: storeAfter.induct) auto

lemma EnsureIndex_present:
  assumes "newRequestErr p ''HEAD'' (indexURL es) = None"
    and "httpDo p w (headRequest es) = Inr r" and "StatusCode r = 200"
  shows "EnsureIndex p es w = (Returns None, w @ [Http (headRequest es) (Inr r)])"
  using assms by (simp add: EnsureIndex_def indexExists_def clientDo_def emit_def Let_def)

lemma EnsureIndex_indeterminate:
  assumes "newRequestErr p ''HEAD'' (indexURL es) = None"
  shows "(httpDo p w (headRequest es) = Inl e \<longrightarrow>
            EnsureIndex p es w =
              (Returns (Some (Wrap ''failed to check if index exists'' e)),
               w @ [Http (headRequest es) (Inl e)]))
       \<and> (httpDo p w (headRequest es) = Inr r \<and> StatusCode r \<noteq> 200 \<and> StatusCode r \<noteq> 404 \<longrightarrow>
            EnsureIndex p es w =
              (Returns (Some (Wrap ''failed to check if index exists''
                                (UnexpectedStatus (StatusCode r)))),
               w @ [Http (headRequest es) (Inr r)]))"
  using assms by (simp add: EnsureIndex_def indexExists_def clientDo_def emit_def Let_def)

lemma store_platform:
  "newRequestErr (elasticStore s0) m u = None"
  "httpDo (elasticStore s0) w req = Inr (storeAnswer (storeAfter s0 w) req)"
  "ctxDone (elasticStore s0) w d = None"
  by (simp_all add: elasticStore_def idlePlatform_def)

lemma head_create:
  "Method (headRequest es) = ''HEAD''" "URL (headRequest es) = indexURL es"
  "Method (createRequest es) = ''PUT''" "URL (createRequest es) = indexURL es"
  "ReqBody (createRequest es) = Text indexMapping"
  by (simp_all add: headRequest_def createRequest_def)

lemma store_codes: "StatusCode ok200 = 200" "StatusCode notFound404 = 404"
  by (simp_all add: ok200_def notFound404_def)

lemma EnsureIndex_store_present:
  assumes "storeAfter s0 w (indexURL es) \<noteq> None"
  shows "EnsureIndex (elasticStore s0) es w = (Returns None, w @ [Http (headRequest es) (Inr ok200)])"
    and "storeAfter s0 (w @ [Http (headRequest es) (Inr ok200)]) = storeAfter s0 w"
proof -
  have "httpDo (elasticStore s0) w (headRequest es) = Inr ok200"
    using assms by (auto simp: store_platform head_create storeAnswer_def)
  then show "EnsureIndex (elasticStore s0) es w = (Returns None, w @ [Http (headRequest es) (Inr ok200)])"
    by (intro EnsureIndex_present) (simp_all add: store_platform store_codes)
  show "storeAfter s0 (w @ [Http (headRequest es) (Inr ok200)]) = storeAfter s0 w"
    by (simp add: storeAfter_append applyRequest_def head_create)
qed

lemma EnsureIndex_store_absent:
  assumes "storeAfter s0 w (indexURL es) = None"
  shows "EnsureIndex (elasticStore s0) es w =
           (Returns None, w @ [Http (headRequest es) (Inr notFound404), Http (createRequest es) (Inr ok200)])"
    and "storeAfter s0 (w @ [Http (headRequest es) (Inr notFound404), Http (createRequest es) (Inr ok200)])
           = (storeAfter s0 w)(indexURL es \<mapsto> Text indexMapping)"
proof -
  let ?w1 = "w @ [Http (headRequest es) (Inr notFound404)]"
  have h: "httpDo (elasticStore s0) w (headRequest es) = Inr notFound404"
    using assms by (simp add: store_platform head_create storeAnswer_def)
  have s1: "storeAfter s0 ?w1 = storeAfter s0 w"
    by (simp add: storeAfter_append applyRequest_def head_create)
  have c: "httpDo (elasticStore s0) ?w1 (createRequest es) = Inr ok200"
    using assms s1 by (simp add: store_platform head_create storeAnswer_def)
  have r: "doRequestWithRetry (elasticStore s0) (createRequest es) ?w1 =
      ((Some ok200, None), ?w1 @ [Http (createRequest es) (Inr ok200)])"
    unfolding doRequestWithRetry_def
    by (subst retryLoop.simps) (simp add: clientDo_def emit_def maxRetries_def c store_codes Let_def)
  have i: "indexExists (elasticStore s0) es w = ((False, None), ?w1)"
    using h by (simp add: indexExists_def clientDo_def emit_def store_platform store_codes Let_def)
  show "EnsureIndex (elasticStore s0) es w =
           (Returns None, w @ [Http (headRequest es) (Inr notFound404), Http (createRequest es) (Inr ok200)])"
    using r by (simp add: EnsureIndex_def i store_platform store_codes)
  show "storeAfter s0 (w @ [Http (headRequest es) (Inr notFound404), Http (createRequest es) (Inr ok200)])
           = (storeAfter s0 w)(indexURL es \<mapsto> Text indexMapping)"
    using assms by (simp add: storeAfter_append applyRequest_def head_create)
qed

text \<open>
  C8. Against a store that keeps its indices, \<open>EnsureIndex\<close> returns nil, and a second
  call in the world the first one left returns nil too, having sent only the existence
  check, answered 200: no creation request, and the store as it was. If the index
  was absent the first call sends the check, answered 404, and one creation request
  with the fixed mapping, after which the store holds that index with that mapping
  and is otherwise unchanged; if the index was there, the first call already is only
  the check. On any platform: when the check is answered 200 the call returns nil with
  nothing sent after the check; when the check cannot be built, fails in the
  transport, or is answered by a status other than 200 and 404, the call returns the
  wrapped error and nothing is sent after the check.
\<close>

theorem EnsureIndex_idempotent:
  "(\<exists>w1. EnsureIndex (elasticStore indices) es w = (Returns None, w1)
        \<and> EnsureIndex (elasticStore indices) es w1 =
            (Returns None, w1 @ [Http (headRequest es) (Inr ok200)])
        \<and> storeAfter indices (w1 @ [Http (headRequest es) (Inr ok200)]) = storeAfter indices w1
        \<and> (storeAfter indices w (indexURL es) = None \<longrightarrow>
             w1 = w @ [Http (headRequest es) (Inr notFound404), Http (createRequest es) (Inr ok200)]
             \<and> storeAfter indices w1 = (storeAfter indices w)(indexURL es \<mapsto> Text indexMapping))
        \<and> (storeAfter indices w (indexURL es) \<noteq> None \<longrightarrow>
             w1 = w @ [Http (headRequest es) (Inr ok200)]
             \<and> storeAfter indices w1 = storeAfter indices w))
   \<and> (\<forall>e. newRequestErr p ''HEAD'' (indexURL es) = Some e \<longrightarrow>
         EnsureIndex p es w = (Returns (Some (Wrap ''failed to check if index exists'' e)), w))
   \<and> (newRequestErr p ''HEAD'' (indexURL es) = None \<longrightarrow>
         (\<forall>r. httpDo p w (headRequest es) = Inr r \<and> StatusCode r = 200 \<longrightarrow>
            EnsureIndex p es w = (Returns None, w @ [Http (headRequest es) (Inr r)]))
       \<and> (\<forall>e. httpDo p w (headRequest es) = Inl e \<longrightarrow>
            EnsureIndex p es w =
              (Returns (Some (Wrap ''failed to check if index exists'' e)),
               w @ [Http (headRequest es) (Inl e)]))
       \<and> (\<forall>r. httpDo p w (headRequest es) = Inr r \<and> StatusCode r \<noteq> 200 \<and> StatusCode r \<noteq> 404 \<longrightarrow>
            EnsureIndex p es w =
              (Returns (Some (Wrap ''failed to check if index exists''
                                (UnexpectedStatus (StatusCode r)))),
               w @ [Http (headRequest es) (Inr r)])))"
proof (intro conjI)
  show "\<exists>w1. EnsureIndex (elasticStore indices) es w = (Returns None, w1)
        \<and> EnsureIndex (elasticStore indices) es w1 =
            (Returns None, w1 @ [Http (headRequest es) (Inr ok200)])
        \<and> storeAfter indices (w1 @ [Http (headRequest es) (Inr ok200)]) = storeAfter indices w1
        \<and> (storeAfter indices w (indexURL es) = None \<longrightarrow>
             w1 = w @ [Http (headRequest es) (Inr notFound404), Http (createRequest es) (Inr ok200)]
             \<and> storeAfter indices w1 = (storeAfter indices w)(indexURL es \<mapsto> Text indexMapping))
        \<and> (storeAfter indices w (indexURL es) \<noteq> None \<longrightarrow>
             w1 = w @ [Http (headRequest es) (Inr ok200)]
             \<and> storeAfter indices w1 = storeAfter indices w)"
  proof (cases "storeAfter indices w (indexURL es) = None")
    case True
    let ?w1 = "w @ [Http (headRequest es) (Inr notFound404), Http (createRequest es) (Inr ok200)]"
    have a: "EnsureIndex (elasticStore indices) es w = (Returns None, ?w1)"
      and b: "storeAfter indices ?w1 = (storeAfter indices w)(indexURL es \<mapsto> Text indexMapping)"
      using EnsureIndex_store_absent[OF True] by auto
    have c: "storeAfter indices ?w1 (indexURL es) \<noteq> None" using b by simp
    show ?thesis
      using a b True EnsureIndex_store_present[OF c] by (intro exI[of _ ?w1]) auto
  next
    case False
    let ?w1 = "w @ [Http (headRequest es) (Inr ok200)]"
    have a: "EnsureIndex (elasticStore indices) es w = (Returns None, ?w1)"
      and b: "storeAfter indices ?w1 = storeAfter indices w"
      using EnsureIndex_store_present[OF False] by auto
    have c: "storeAfter indices ?w1 (indexURL es) \<noteq> None" using b False by simp
    show ?thesis
      using a b False EnsureIndex_store_present[OF c] by (intro exI[of _ ?w1]) auto
  qed
next
  show "\<forall>e. newRequestErr p ''HEAD'' (indexURL es) = Some e \<longrightarrow>
         EnsureIndex p es w = (Returns (Some (Wrap ''failed to check if index exists'' e)), w)"
    by (simp add: EnsureIndex_def indexExists_def)
next
  show "newRequestErr p ''HEAD'' (indexURL es) = None \<longrightarrow>
         (\<forall>r. httpDo p w (headRequest es) = Inr r \<and> StatusCode r = 200 \<longrightarrow>
            EnsureIndex p es w = (Returns None, w @ [Http (headRequest es) (Inr r)]))
       \<and> (\<forall>e. httpDo p w (headRequest es) = Inl e \<longrightarrow>
            EnsureIndex p es w =
              (Returns (Some (Wrap ''failed to check if index exists'' e)),
               w @ [Http (headRequest es) (Inl e)]))
       \<and> (\<forall>r. httpDo p w (headRequest es) = Inr r \<and> StatusCode r \<noteq> 200 \<and> StatusCode r \<noteq> 404 \<longrightarrow>
            EnsureIndex p es w =
              (Returns (Some (Wrap ''failed to check if index exists''
                                (UnexpectedStatus (StatusCode r)))),
               w @ [Http (headRequest es) (Inr r)]))"
    using EnsureIndex_present[of p es w] EnsureIndex_indeterminate[of p es w] by blast
qed

theorem EnsureIndex_idempotent_witness:
  "EnsureIndex (elasticStore Map.empty) (indexerES sampleIndexer) [] =
     (Returns None,
      [Http (headRequest (indexerES sampleIndexer)) (Inr notFound404),
       Http (createRequest (indexerES sampleIndexer)) (Inr ok200)])
   \<and> EnsureIndex (elasticStore Map.empty) (indexerES sampleIndexer)
       [Http (headRequest (indexerES sampleIndexer)) (Inr notFound404),
        Http (createRequest (indexerES sampleIndexer)) (Inr ok200)] =
     (Returns None,
      [Http (headRequest (indexerES sampleIndexer)) (Inr notFound404),
       Http (createRequest (indexerES sampleIndexer)) (Inr ok200),
       Http (headRequest (indexerES sampleIndexer)) (Inr ok200)])
   \<and> storeAfter Map.empty
       [Http (headRequest (indexerES sampleIndexer)) (Inr notFound404),
        Http (createRequest (indexerES sampleIndexer)) (Inr ok200),
        Http (headRequest (indexerES sampleIndexer)) (Inr ok200)] =
     [''http://es:9200/code'' \<mapsto> Text indexMapping]
   \<and> EnsureIndex (scripted (\<lambda>n. status 503)) (indexerES sampleIndexer) [] =
     (Returns (Some (Wrap ''failed to check if index exists'' (UnexpectedStatus 503))),
      [Http (headRequest (indexerES sampleIndexer)) (status 503)])"
proof -
  let ?es = "indexerES sampleIndexer"
  let ?w1 = "[Http (headRequest ?es) (Inr notFound404), Http (createRequest ?es) (Inr ok200)]"
  note T = EnsureIndex_idempotent [of Map.empty ?es "[]" "scripted (\<lambda>n. status 503)"]
  have url: "indexURL ?es = ''http://es:9200/code''"
    by (simp add: indexURL_def sampleIndexer_def)
  have absent: "storeAfter Map.empty [] (indexURL ?es) = None" by simp
  from T absent obtain w1 where w1: "EnsureIndex (elasticStore Map.empty) ?es [] = (Returns None, w1)"
    "EnsureIndex (elasticStore Map.empty) ?es w1 = (Returns None, w1 @ [Http (headRequest ?es) (Inr ok200)])"
    "storeAfter Map.empty (w1 @ [Http (headRequest ?es) (Inr ok200)]) = storeAfter Map.empty w1"
    "w1 = [] @ ?w1"
    "storeAfter Map.empty w1 = (storeAfter Map.empty [])(indexURL ?es \<mapsto> Text indexMapping)"
    by blast
  have first: "EnsureIndex (elasticStore Map.empty) ?es [] = (Returns None, ?w1)"
    using w1(1,4) by simp
  have second: "EnsureIndex (elasticStore Map.empty) ?es ?w1 =
      (Returns None, ?w1 @ [Http (headRequest ?es) (Inr ok200)])"
    using w1(2,4) by simp
  have store: "storeAfter Map.empty (?w1 @ [Http (headRequest ?es) (Inr ok200)]) =
      [''http://es:9200/code'' \<mapsto> Text indexMapping]"
    using w1(3,4,5) by (simp only: url append_Nil storeAfter.simps(1))
  have n: "newRequestErr (scripted (\<lambda>n. status 503)) ''HEAD'' (indexURL ?es) = None"
    and h: "httpDo (scripted (\<lambda>n. status 503)) [] (headRequest ?es) = status 503"
    by (simp_all add: scripted_def idlePlatform_def)
  have third: "EnsureIndex (scripted (\<lambda>n. status 503)) ?es [] =
     (Returns (Some (Wrap ''failed to check if index exists'' (UnexpectedStatus 503))),
      [Http (headRequest ?es) (status 503)])"
    using T[THEN conjunct2, THEN conjunct2, rule_format, OF n, THEN conjunct2, THEN conjunct2,
            rule_format, of "\<lparr>StatusCode = 503, Status = [], Body = NoBody\<rparr>"] h
    by (simp add: status_def)
  show ?thesis using first second store third by simp
qed

section \<open>Properties of the tree walk\<close>

lemma walk_error: "walk p path info (Some e) st = (Returns (Some e), st)"
  by (simp add: walk_def Let_def)

lemma walk_pruned:
  "IsDir fi \<Longrightarrow> prunedName (FileName fi) \<Longrightarrow> walk p path (Some fi) None st = (Returns (Some SkipDir), st)"
  by (simp add: walk_def Let_def prunedName_def)

lemma walk_reach:
  "\<not> (IsDir fi \<and> prunedName (FileName fi)) \<Longrightarrow> walk p path (Some fi) None st = reach p path st"
  by (auto simp: walk_def reach_def Let_def prunedName_def)

lemma reach_cases:
  "(\<exists>st1. reach p path st = (Returns None, st1)) \<or> (\<exists>m st1. reach p path st = (Panics m, st1))"
  by (auto simp: reach_def walk_def Let_def split: prod.splits outcome.splits option.splits)

lemma run_append:
  "run p (a @ b) st =
     (case run p a st of (Returns None, st1) \<Rightarrow> run p b st1 | r \<Rightarrow> r)"
proof (induction a arbitrary: st)
  case Nil
  then show ?case by simp
next
  case (Cons v a)
  show ?case
  proof (cases v)
    case (Reach path)
    then show ?thesis using Cons.IH reach_cases[of p path st]
      by (auto split: prod.splits outcome.splits option.splits)
  next
    case (Fail e)
    then show ?thesis by simp
  qed
qed

lemma run_cases:
  "(\<exists>st1. run p vs st = (Returns None, st1))
   \<or> (\<exists>e st1. run p vs st = (Returns (Some (External e)), st1))
   \<or> (\<exists>m st1. run p vs st = (Panics m, st1))"
proof (induction vs arbitrary: st)
  case Nil
  then show ?case by simp
next
  case (Cons v vs)
  show ?case
  proof (cases v)
    case (Reach path)
    then show ?thesis using Cons.IH reach_cases[of p path st]
      by (auto split: prod.splits outcome.splits)
  next
    case (Fail e)
    then show ?thesis by simp
  qed
qed

lemma walk_refines:
  "walkNode (walk p) path node st =
     (if nodeIsDir node \<and> \<not> (\<exists>n e. node = DirErr n e) \<and> prunedName (nodeName node)
      then (Returns (Some SkipDir), st)
      else run p (visits path node) st)"
  "walkNames (walk p) path entries st = run p (visitsOf path entries) st"
proof (induction "walk p" path node st and "walk p" path entries st
       rule: walkNode_walkNames.induct)
  case (1 path n st)
  have "walk p path (Some (nodeInfo (File n))) None st = reach p path st"
    by (simp add: walk_reach nodeInfo_def)
  then show ?case using reach_cases[of p path st] by auto
next
  case (2 path n e st)
  then show ?case by (simp add: walk_error)
next
  case (3 path n e st)
  then show ?case by (simp add: walk_error)
next
  case (4 path n entries st)
  show ?case
  proof (cases "prunedName n")
    case True
    then show ?thesis by (simp add: walk_pruned nodeInfo_def)
  next
    case False
    then have w: "walk p path (Some (nodeInfo (Dir n entries))) None st = reach p path st"
      by (simp add: walk_reach nodeInfo_def)
    show ?thesis
      using False w reach_cases[of p path st] 4
      by (auto split: prod.splits outcome.splits option.splits)
  qed
next
  case (5 path st)
  then show ?case by simp
next
  case (6 path entry rest st)
  let ?f = "Join path (nodeName entry)"
  show ?case
  proof (cases "nodeIsDir entry \<and> \<not> (\<exists>n e. entry = DirErr n e) \<and> prunedName (nodeName entry)")
    case True
    then have v: "visits ?f entry = []" by (cases entry) auto
    have nl: "\<not> lstatFailed entry" using True by (cases entry) auto
    have "walkNode (walk p) ?f entry st = (Returns (Some SkipDir), st)"
      using 6(1) True by simp
    then show ?thesis using 6(3) True v nl by simp
  next
    case False
    then have r: "walkNode (walk p) ?f entry st = run p (visits ?f entry) st"
      using 6(1) by auto
    consider (ok) st1 where "run p (visits ?f entry) st = (Returns None, st1)"
      | (err) e st1 where "run p (visits ?f entry) st = (Returns (Some (External e)), st1)"
      | (panic) m st1 where "run p (visits ?f entry) st = (Panics m, st1)"
      using run_cases by blast
    then show ?thesis
    proof cases
      case ok
      then show ?thesis using r 6(2) by (simp add: run_append)
    next
      case err
      then show ?thesis using r by (simp add: run_append)
    next
      case panic
      then show ?thesis using r by (simp add: run_append)
    qed
  qed
qed

lemma Walk_refines: "Walk (walk p) root tree st = run p (visits root tree) st"
proof (cases "nodeIsDir tree \<and> \<not> (\<exists>n e. tree = DirErr n e) \<and> prunedName (nodeName tree)")
  case True
  then have "visits root tree = []" by (cases tree) auto
  then show ?thesis using True by (simp add: Walk_def walk_refines(1))
next
  case False
  then have r: "walkNode (walk p) root tree st = run p (visits root tree) st"
    by (auto simp: walk_refines(1))
  show ?thesis using r run_cases[of p "visits root tree" st]
    by (auto simp: Walk_def)
qed


lemma sourcePlatform_indexFile:
  "\<exists>w1. indexFile sourcePlatform es r path w = (Returns (1, None), w1)"
proof -
  have p: "parseFile sourcePlatform w0 path0 = Inr
        \<lparr>PkgName = ''main'', ImportPaths = [],
         FuncDecls = [\<lparr>Name = ''f'', Type = \<lparr>Results = None\<rparr>, PosOffset = 13, EndOffset = 25\<rparr>]\<rparr>"
    "readFile sourcePlatform w0 path0 = Inr ''package main func f() { }''"
    "timeNow sourcePlatform w0 = 0"
    "timeMarshalJSON sourcePlatform 0 = Inr ''1970-01-01T00:00:00Z''"
    "newRequestErr sourcePlatform m u = None"
    "httpDo sourcePlatform w0 req = Inr \<lparr>StatusCode = 200, Status = ''200 OK'', Body = NoBody\<rparr>"
    for w0 path0 m u req
    by (simp_all add: sourcePlatform_def idlePlatform_def)
  have d: "\<exists>w1. doRequestWithRetry sourcePlatform req w0 =
      ((Some \<lparr>StatusCode = 200, Status = ''200 OK'', Body = NoBody\<rparr>, None), w1)" for req w0
    unfolding doRequestWithRetry_def
    by (subst retryLoop.simps) (simp add: clientDo_def p maxRetries_def Let_def)
  have i: "\<exists>w1. IndexDocument sourcePlatform c doc w0 = (Returns None, w1)"
    if at0: "IndexedAt doc = 0" for doc w0 c
  proof -
    obtain data where m: "MarshalCodeDocument sourcePlatform doc = Inr data"
      using at0 by (simp add: MarshalCodeDocument_def p)
    let ?req = "\<lparr>Method = ''POST'', URL = host c @ ''/'' @ index c @ ''/_doc'', ReqBody = Doc data,
                           ContentType = Some ''application/json'', BasicAuth = basicAuth c\<rparr>"
    obtain w1 where "doRequestWithRetry sourcePlatform ?req w0 =
      ((Some \<lparr>StatusCode = 200, Status = ''200 OK'', Body = NoBody\<rparr>, None), w1)"
      using d by blast
    then show ?thesis by (simp add: IndexDocument_def m p Let_def)
  qed
  have v: "\<exists>w1. Visit sourcePlatform v
        \<lparr>Name = ''f'', Type = \<lparr>Results = None\<rparr>, PosOffset = 13, EndOffset = 25\<rparr> w0
      = (Returns (v\<lparr>funcCount := funcCount v + 1\<rparr>), w1)"
    if vc: "visitorContent v = ''package main func f() { }''" for v w0
  proof -
    obtain doc where e: "extractFunctionDoc
        \<lparr>Name = ''f'', Type = \<lparr>Results = None\<rparr>, PosOffset = 13, EndOffset = 25\<rparr>
        (visitorContent v) (visitorRepo v) (visitorFilePath v)
             (visitorPkgName v) (visitorImports v) (timeNow sourcePlatform w0) = Returns doc"
      "IndexedAt doc = 0"
      using vc by (simp add: extractFunctionDoc_def p)
    obtain w1 where "IndexDocument sourcePlatform (visitorES v) doc w0 = (Returns None, w1)"
      using i[OF e(2)] by blast
    then show ?thesis using e(1) by (simp add: Visit_def)
  qed
  let ?w2 = "emit (ReadFile path (Inr ''package main func f() { }''))
     (emit (Parse path (parseFile sourcePlatform w path)) w)"
  let ?v = "\<lparr>visitorES = es, visitorContent = ''package main func f() { }'', visitorRepo = r,
                        visitorFilePath = path, visitorPkgName = ''main'',
                        visitorImports = None, funcCount = 0\<rparr>"
  obtain w3 where "Visit sourcePlatform ?v
        \<lparr>Name = ''f'', Type = \<lparr>Results = None\<rparr>, PosOffset = 13, EndOffset = 25\<rparr> ?w2
      = (Returns (?v\<lparr>funcCount := funcCount ?v + 1\<rparr>), w3)"
    using v[of ?v ?w2] by auto
  then show ?thesis
    by (simp add: indexFile_def p Let_def)
qed

lemma sourcePlatform_reach:
  "\<exists>w1. reach sourcePlatform path (fw, w) =
     (Returns None, (if Ext path = ''.go'' then fw\<lparr>totalCount := totalCount fw + 1\<rparr> else fw), w1)"
proof (cases "Ext path = ''.go''")
  case True
  obtain w1 where "indexFile sourcePlatform (walkerES fw) (repoName fw) path w = (Returns (1, None), w1)"
    using sourcePlatform_indexFile by blast
  then show ?thesis using True by (simp add: reach_def walk_def)
next
  case False
  then show ?thesis by (simp add: reach_def walk_def)
qed


lemma run_Reach_cases:
  "(\<exists>st1. run p (map Reach paths) st = (Returns None, st1))
   \<or> (\<exists>m st1. run p (map Reach paths) st = (Panics m, st1))"
proof (induction paths arbitrary: st)
  case Nil
  then show ?case by simp
next
  case (Cons a paths)
  then show ?case using reach_cases[of p a st] by (auto split: prod.splits outcome.splits)
qed

lemma sourcePlatform_run:
  "\<exists>w1. run sourcePlatform (map Reach paths) (fw, w) =
     (Returns None, fw\<lparr>totalCount := totalCount fw + length (filter (\<lambda>path. Ext path = ''.go'') paths)\<rparr>, w1)"
proof (induction paths arbitrary: fw w)
  case Nil
  then show ?case by simp
next
  case (Cons a paths)
  obtain w1 where r: "reach sourcePlatform a (fw, w) =
     (Returns None, (if Ext a = ''.go'' then fw\<lparr>totalCount := totalCount fw + 1\<rparr> else fw), w1)"
    using sourcePlatform_reach by blast
  show ?case
  proof (cases "Ext a = ''.go''")
    case True
    obtain w2 where "run sourcePlatform (map Reach paths) (fw\<lparr>totalCount := totalCount fw + 1\<rparr>, w1) =
       (Returns None, (fw\<lparr>totalCount := totalCount fw + 1\<rparr>)\<lparr>totalCount :=
          totalCount (fw\<lparr>totalCount := totalCount fw + 1\<rparr>) + length (filter (\<lambda>path. Ext path = ''.go'') paths)\<rparr>, w2)"
      using Cons.IH by blast
    then show ?thesis using r True by simp
  next
    case False
    obtain w2 where "run sourcePlatform (map Reach paths) (fw, w1) =
       (Returns None, fw\<lparr>totalCount := totalCount fw + length (filter (\<lambda>path. Ext path = ''.go'') paths)\<rparr>, w2)"
      using Cons.IH by blast
    then show ?thesis using r False by simp
  qed
qed


lemma Ext_examples:
  "Ext ''/repos/repo'' = []" "Ext ''/repos/repo/main.go'' = ''.go''" "Ext ''/repos/repo/pkg'' = []"
  "Ext ''/repos/repo/pkg/util.go'' = ''.go''" "Ext ''/repos/repo/a.go'' = ''.go''"
  "Ext ''/repos/repo/b.go'' = ''.go''"
  by (simp_all add: Ext_def)


text \<open>
  C3, as the code has it. The callback returns the traversal error it is handed, and
  \<open>filepath.Walk\<close> ends the whole walk on any error but \<open>SkipDir\<close>. So the first
  unreadable directory or entry that the walk reaches, the root or any other path
  outside pruned directories, ends the walk with its error: the paths before it in
  walk order have been gone through and their functions are in the count, the paths
  after it are not visited. A tree without such a failure never makes the walk return
  an error, and indexing one path never does: a file that fails to index does not
  fail the walk.
\<close>

theorem walk_stops_at_traversal_error:
  "(visits root tree = map Reach before @ Fail e # after \<longrightarrow>
      Walk (walk p) root tree st =
        (case run p (map Reach before) st of
           (Returns r, st1) \<Rightarrow> (Returns (Some (External e)), st1)
         | (Panics m, st1) \<Rightarrow> (Panics m, st1)))
   \<and> (visits root tree = map Reach paths \<longrightarrow>
        Walk (walk p) root tree st = run p (map Reach paths) st
        \<and> (\<forall>err. fst (Walk (walk p) root tree st) \<noteq> Returns (Some err)))
   \<and> (\<forall>err. fst (reach p path st) \<noteq> Returns (Some err))
   \<and> visits root (DirErr n e) = [Fail e] \<and> visits root (LstatErr n e) = [Fail e]
   \<and> visits root (Dir n (entries @ DirErr n' e # rest)) =
       (if prunedName n then []
        else Reach root # visitsOf root entries @ Fail e # visitsOf root rest)"
proof (intro conjI impI allI)
  assume v: "visits root tree = map Reach before @ Fail e # after"
  have "Walk (walk p) root tree st = run p (map Reach before @ Fail e # after) st"
    using v by (simp add: Walk_refines)
  then show "Walk (walk p) root tree st =
        (case run p (map Reach before) st of
           (Returns r, st1) \<Rightarrow> (Returns (Some (External e)), st1)
         | (Panics m, st1) \<Rightarrow> (Panics m, st1))"
    using run_Reach_cases[of p before st] by (auto simp: run_append)
next
  assume v: "visits root tree = map Reach paths"
  then show w: "Walk (walk p) root tree st = run p (map Reach paths) st"
    by (simp add: Walk_refines)
  fix err
  show "fst (Walk (walk p) root tree st) \<noteq> Returns (Some err)"
    using v run_Reach_cases[of p paths st] by (auto simp: Walk_refines)
next
  fix err show "fst (reach p path st) \<noteq> Returns (Some err)"
    using reach_cases[of p path st] by auto
next
  show "visits root (DirErr n e) = [Fail e]" by simp
  show "visits root (LstatErr n e) = [Fail e]" by simp
  have "visitsOf root (a @ b) = visitsOf root a @ visitsOf root b" for a b
    by (induction a) auto
  then show "visits root (Dir n (entries @ DirErr n' e # rest)) =
       (if prunedName n then []
        else Reach root # visitsOf root entries @ Fail e # visitsOf root rest)"
    by simp
qed

theorem walk_stops_at_traversal_error_witness:
  "fst (Walk (walk sourcePlatform) ''/repos/repo''
      (Dir ''repo'' [File ''a.go'', DirErr ''b'' ''permission denied'', File ''c.go''])
      (sampleWalker, [])) = Returns (Some (External ''permission denied''))
   \<and> totalCount (fst (snd (Walk (walk sourcePlatform) ''/repos/repo''
      (Dir ''repo'' [File ''a.go'', DirErr ''b'' ''permission denied'', File ''c.go''])
      (sampleWalker, [])))) = 1
   \<and> fst (Walk (walk sourcePlatform) ''/repos/repo''
      (Dir ''repo'' [File ''a.go'', File ''c.go'']) (sampleWalker, [])) = Returns None"
proof -
  let ?t = "Dir ''repo'' [File ''a.go'', DirErr ''b'' ''permission denied'', File ''c.go'']"
  let ?u = "Dir ''repo'' [File ''a.go'', File ''c.go'']"
  have v: "visits ''/repos/repo'' ?t =
      map Reach [''/repos/repo'', ''/repos/repo/a.go''] @ Fail ''permission denied'' #
        [Reach ''/repos/repo/c.go'']"
    by (simp add: prunedName_def Join_def)
  have u: "visits ''/repos/repo'' ?u =
      map Reach [''/repos/repo'', ''/repos/repo/a.go'', ''/repos/repo/c.go'']"
    by (simp add: prunedName_def Join_def)
  obtain w1 where r: "run sourcePlatform (map Reach [''/repos/repo'', ''/repos/repo/a.go'']) (sampleWalker, []) =
     (Returns None, sampleWalker\<lparr>totalCount := totalCount sampleWalker
        + length (filter (\<lambda>path. Ext path = ''.go'') [''/repos/repo'', ''/repos/repo/a.go''])\<rparr>, w1)"
    using sourcePlatform_run by blast
  have "Walk (walk sourcePlatform) ''/repos/repo'' ?t (sampleWalker, []) =
      (Returns (Some (External ''permission denied'')), sampleWalker\<lparr>totalCount := 1\<rparr>, w1)"
    using walk_stops_at_traversal_error
        [of "''/repos/repo''" ?t "[''/repos/repo'', ''/repos/repo/a.go'']" "''permission denied''"
           "[Reach ''/repos/repo/c.go'']" sourcePlatform "(sampleWalker, [])", THEN conjunct1] v r
    by (simp add: Ext_examples sampleWalker_def)
  moreover have "fst (Walk (walk sourcePlatform) ''/repos/repo'' ?u (sampleWalker, [])) = Returns None"
  proof -
    obtain w2 fw2 where "run sourcePlatform (map Reach [''/repos/repo'', ''/repos/repo/a.go'', ''/repos/repo/c.go''])
        (sampleWalker, []) = (Returns None, fw2, w2)"
      using sourcePlatform_run by blast
    then show ?thesis using u by (simp add: Walk_refines)
  qed
  ultimately show ?thesis by simp
qed

text \<open>
  The claim C3 as stated fails: with an unreadable directory \<open>a\<close> before the file
  \<open>b.go\<close> in the root, the walk returns the error of \<open>a\<close>, and the walker and the
  trace are left as they were, so \<open>b.go\<close> is neither visited nor counted; without
  \<open>a\<close> the same file is indexed and counts one function.
\<close>

theorem walk_subtree_error_counterexample:
  "Walk (walk sourcePlatform) ''/repos/repo''
      (Dir ''repo'' [DirErr ''a'' ''permission denied'', File ''b.go''])
      (sampleWalker, []) =
     (Returns (Some (External ''permission denied'')), sampleWalker, [])
   \<and> fst (Walk (walk sourcePlatform) ''/repos/repo'' (Dir ''repo'' [File ''b.go''])
          (sampleWalker, [])) = Returns None
   \<and> totalCount (fst (snd (Walk (walk sourcePlatform) ''/repos/repo'' (Dir ''repo'' [File ''b.go''])
          (sampleWalker, [])))) = 1"
proof -
  have a: "Walk (walk sourcePlatform) ''/repos/repo''
      (Dir ''repo'' [DirErr ''a'' ''permission denied'', File ''b.go'']) (sampleWalker, []) =
     (Returns (Some (External ''permission denied'')), sampleWalker, [])"
    by (simp add: Walk_refines prunedName_def Join_def reach_def walk_def Ext_examples)
  obtain w1 where "run sourcePlatform (map Reach [''/repos/repo'', ''/repos/repo/b.go'']) (sampleWalker, []) =
     (Returns None, sampleWalker\<lparr>totalCount := totalCount sampleWalker
        + length (filter (\<lambda>path. Ext path = ''.go'') [''/repos/repo'', ''/repos/repo/b.go''])\<rparr>, w1)"
    using sourcePlatform_run by blast
  then have "Walk (walk sourcePlatform) ''/repos/repo'' (Dir ''repo'' [File ''b.go'']) (sampleWalker, []) =
     (Returns None, sampleWalker\<lparr>totalCount := 1\<rparr>, w1)"
    by (simp add: Walk_refines prunedName_def Join_def Ext_examples sampleWalker_def)
  then show ?thesis using a by simp
qed

section \<open>Properties of the document encoding\<close>

lemma toValidUTF8_valid: "ValidString s \<Longrightarrow> toValidUTF8 s = s"
proof (induction s rule: ValidString.induct)
  case (1 s)
  show ?case
  proof (cases "s = []")
    case True
    then show ?thesis by (simp add: toValidUTF8.simps)
  next
    case False
    have nz: "runeLen s \<noteq> 0"
      using "1.prems" False by (subst (asm) ValidString.simps) (auto split: if_splits)
    have v: "ValidString (drop (runeLen s) s)"
      using "1.prems" False nz by (subst (asm) ValidString.simps) (auto split: if_splits)
    have "toValidUTF8 (drop (runeLen s) s) = drop (runeLen s) s"
      using "1.IH" False nz v by simp
    then show ?thesis using False nz by (subst toValidUTF8.simps) simp
  qed
qed

lemma unmarshalElems_marshal:
  "\<forall>s \<in> set l. ValidString s \<Longrightarrow> unmarshalElems (map marshalString l) = Inr l"
  by (induction l) (auto simp: marshalString_def toValidUTF8_valid)

lemma unmarshalStrings_marshal:
  "(\<forall>l. imps = Some l \<longrightarrow> (\<forall>s \<in> set l. ValidString s)) \<Longrightarrow>
     unmarshalStrings (marshalStrings imps) = Inr imps"
  by (cases imps) (auto simp: marshalStrings_def unmarshalElems_marshal)

text \<open>
  C5, as the code has it. \<open>json.Marshal\<close> coerces every string to valid UTF-8, so only
  a document whose strings are valid UTF-8 comes back as it was. For every such
  document whose timestamp the time encoding writes and reads back (a \<open>time.Time\<close> is
  compared by its instant), encoding succeeds and decoding the result gives the
  document itself, every field equal: a list of imports keeps its elements and their
  order, an empty list that is present comes back as an empty list, and an absent
  (nil) list as an absent one.
\<close>

theorem CodeDocument_roundtrip:
  assumes "validDocument d"
    and "timeMarshalJSON p (IndexedAt d) = Inr ts" and "timeUnmarshalJSON p ts = Inr (IndexedAt d)"
  shows "\<exists>j. MarshalCodeDocument p d = Inr j \<and> UnmarshalCodeDocument p j = Inr d"
proof -
  have s: "toValidUTF8 (Repo d) = Repo d" "toValidUTF8 (FilePath d) = FilePath d"
    "toValidUTF8 (FunctionName d) = FunctionName d" "toValidUTF8 (Code d) = Code d"
    "toValidUTF8 (Package d) = Package d"
    using assms(1) by (simp_all add: validDocument_def toValidUTF8_valid)
  have i: "unmarshalStrings (marshalStrings (Imports d)) = Inr (Imports d)"
    using assms(1) by (intro unmarshalStrings_marshal) (auto simp: validDocument_def list_all_iff)
  have "UnmarshalCodeDocument p (JObj
            [(''repo'', marshalString (Repo d)),
             (''file_path'', marshalString (FilePath d)),
             (''function_name'', marshalString (FunctionName d)),
             (''code'', marshalString (Code d)),
             (''has_namedreturns'', JBool (HasNamedReturns d)),
             (''has_error_handling'', JBool (HasErrorHandling d)),
             (''package'', marshalString (Package d)),
             (''imports'', marshalStrings (Imports d)),
             (''lint_compliant'', JBool (LintCompliant d)),
             (''indexed_at'', JStr ts)]) = Inr d"
    using assms(3) s i
    by (simp add: UnmarshalCodeDocument_def setField_def marshalString_def zeroCodeDocument_def)
  then show ?thesis using assms(2) by (simp add: MarshalCodeDocument_def)
qed

lemma ascii_valid: "\<forall>c \<in> set s. byte c < 128 \<Longrightarrow> ValidString s"
proof (induction s)
  case Nil
  then show ?case by (simp add: ValidString.simps)
next
  case (Cons c s)
  then have "runeLen (c # s) = 1" by simp
  then show ?case using Cons by (subst ValidString.simps) simp
qed

lemma sample_valid: "validDocument sampleDocument"
  by (simp add: validDocument_def sampleDocument_def ascii_valid byte_def)

lemma sample_empty_valid: "validDocument (sampleDocument\<lparr>Imports := Some []\<rparr>)"
  "validDocument (sampleDocument\<lparr>Imports := None\<rparr>)"
  using sample_valid by (simp_all add: validDocument_def)

theorem CodeDocument_roundtrip_witness:
  "(\<exists>j. MarshalCodeDocument idlePlatform sampleDocument = Inr j
        \<and> UnmarshalCodeDocument idlePlatform j = Inr sampleDocument)
   \<and> Imports sampleDocument = Some [''context'', ''errors'']
   \<and> (\<exists>j. MarshalCodeDocument idlePlatform (sampleDocument\<lparr>Imports := Some []\<rparr>) = Inr j
        \<and> UnmarshalCodeDocument idlePlatform j = Inr (sampleDocument\<lparr>Imports := Some []\<rparr>))
   \<and> (\<exists>j. MarshalCodeDocument idlePlatform (sampleDocument\<lparr>Imports := None\<rparr>) = Inr j
        \<and> UnmarshalCodeDocument idlePlatform j = Inr (sampleDocument\<lparr>Imports := None\<rparr>))"
proof -
  have t: "timeMarshalJSON idlePlatform (IndexedAt d) = Inr ''1970-01-01T00:00:00Z''"
    "timeUnmarshalJSON idlePlatform ''1970-01-01T00:00:00Z'' = Inr (IndexedAt d)"
    if "IndexedAt d = 0" for d
    using that by (simp_all add: idlePlatform_def)
  have z: "IndexedAt sampleDocument = 0" "IndexedAt (sampleDocument\<lparr>Imports := Some []\<rparr>) = 0"
    "IndexedAt (sampleDocument\<lparr>Imports := None\<rparr>) = 0"
    by (simp_all add: sampleDocument_def)
  show ?thesis
    using CodeDocument_roundtrip [OF sample_valid t[OF z(1)]]
      CodeDocument_roundtrip [OF sample_empty_valid(1) t[OF z(2)]]
      CodeDocument_roundtrip [OF sample_empty_valid(2) t[OF z(3)]]
    by (simp add: sampleDocument_def)
qed

lemma odd_coerced: "toValidUTF8 (char_of (255::nat) # ''.go'') = replacementRune @ ''.go''"
proof -
  have a: "toValidUTF8 ''.go'' = ''.go''"
    by (rule toValidUTF8_valid, rule ascii_valid) (simp add: byte_def)
  show ?thesis by (subst toValidUTF8.simps) (simp add: a byte_def)
qed

text \<open>
  The claim C5 as stated fails: the document of a file whose name starts with the byte
  FF is encoded with the replacement rune in place of that byte, and decodes to a
  document with another file path.
\<close>

theorem CodeDocument_roundtrip_counterexample:
  "MarshalCodeDocument idlePlatform oddNameDocument =
     Inr (JObj
       [(''repo'', JStr ''test-repo''),
        (''file_path'', JStr (replacementRune @ ''.go'')),
        (''function_name'', JStr ''TestFunction''),
        (''code'', JStr ''func TestFunction() (result string, err error) { return result, err }''),
        (''has_namedreturns'', JBool True),
        (''has_error_handling'', JBool True),
        (''package'', JStr ''test''),
        (''imports'', JArr [JStr ''context'', JStr ''errors'']),
        (''lint_compliant'', JBool False),
        (''indexed_at'', JStr ''1970-01-01T00:00:00Z'')])
   \<and> UnmarshalCodeDocument idlePlatform (JObj
       [(''repo'', JStr ''test-repo''),
        (''file_path'', JStr (replacementRune @ ''.go'')),
        (''function_name'', JStr ''TestFunction''),
        (''code'', JStr ''func TestFunction() (result string, err error) { return result, err }''),
        (''has_namedreturns'', JBool True),
        (''has_error_handling'', JBool True),
        (''package'', JStr ''test''),
        (''imports'', JArr [JStr ''context'', JStr ''errors'']),
        (''lint_compliant'', JBool False),
        (''indexed_at'', JStr ''1970-01-01T00:00:00Z'')])
      = Inr (oddNameDocument\<lparr>FilePath := replacementRune @ ''.go''\<rparr>)
   \<and> FilePath (oddNameDocument\<lparr>FilePath := replacementRune @ ''.go''\<rparr>) \<noteq> FilePath oddNameDocument"
proof -
  have v: "toValidUTF8 s = s" if "\<forall>c \<in> set s. byte c < 128" for s
    using that by (intro toValidUTF8_valid ascii_valid)
  have m: "MarshalCodeDocument idlePlatform oddNameDocument =
     Inr (JObj
       [(''repo'', JStr ''test-repo''),
        (''file_path'', JStr (replacementRune @ ''.go'')),
        (''function_name'', JStr ''TestFunction''),
        (''code'', JStr ''func TestFunction() (result string, err error) { return result, err }''),
        (''has_namedreturns'', JBool True),
        (''has_error_handling'', JBool True),
        (''package'', JStr ''test''),
        (''imports'', JArr [JStr ''context'', JStr ''errors'']),
        (''lint_compliant'', JBool False),
        (''indexed_at'', JStr ''1970-01-01T00:00:00Z'')])"
    by (simp add: MarshalCodeDocument_def oddNameDocument_def sampleDocument_def idlePlatform_def
        marshalString_def marshalStrings_def odd_coerced v byte_def)
  have u: "UnmarshalCodeDocument idlePlatform (JObj
       [(''repo'', JStr ''test-repo''),
        (''file_path'', JStr (replacementRune @ ''.go'')),
        (''function_name'', JStr ''TestFunction''),
        (''code'', JStr ''func TestFunction() (result string, err error) { return result, err }''),
        (''has_namedreturns'', JBool True),
        (''has_error_handling'', JBool True),
        (''package'', JStr ''test''),
        (''imports'', JArr [JStr ''context'', JStr ''errors'']),
        (''lint_compliant'', JBool False),
        (''indexed_at'', JStr ''1970-01-01T00:00:00Z'')])
      = Inr (oddNameDocument\<lparr>FilePath := replacementRune @ ''.go''\<rparr>)"
    by (simp add: UnmarshalCodeDocument_def setField_def zeroCodeDocument_def oddNameDocument_def
        sampleDocument_def idlePlatform_def)
  have n: "FilePath (oddNameDocument\<lparr>FilePath := replacementRune @ ''.go''\<rparr>) \<noteq> FilePath oddNameDocument"
    by (simp add: oddNameDocument_def replacementRune_def)
  show ?thesis using m u n by blast
qed

end
